theory Spec2Isabelle
  imports Complex_Main
begin

section \<open>Python values and exceptions\<close>

text \<open>
  The gripper interaction demo is a single Python script. Its own logic is a setup phase
  (three name lookups in the physics engine) and an endless loop that prints contact
  diagnostics, selects one of four plan entries, writes actuator setpoints, steps the
  engine, copies one bias force and renders. Every call into the engine or the viewer is a
  parameter of the model; every exception such a call or a Python operation can raise is a
  value of \<open>py_error\<close>, and a computation that can raise returns \<open>py_error + 'a\<close>
  with \<open>Inl\<close> for the exception.
\<close>

datatype py_error =
    ValueError
  | IndexError
  | OverflowError
  | ZeroDivisionError
  | MujocoException

subsection \<open>True division of integers followed by \<open>int\<close>\<close>

text \<open>
  The script computes \<^verbatim>\<open>int(step / T)\<close>. In Python 3 the operator \<^verbatim>\<open>/\<close> on two
  integers is true division: the result is the IEEE binary64 number nearest to the exact
  quotient (ties to the even significand), and \<^verbatim>\<open>OverflowError\<close> is raised when that
  number is not finite. \<^verbatim>\<open>int\<close> then truncates towards zero. The functions below
  compute this on integers: a finite binary64 magnitude is a pair \<open>(m, e)\<close> standing for
  \<open>m * 2 ^ e\<close> with \<open>m \<le> 2 ^ 53\<close> and \<open>- 1074 \<le> e\<close>.
\<close>

text \<open>Python's \<^verbatim>\<open>int.bit_length\<close> on a natural number.\<close>

fun bit_length :: "nat \<Rightarrow> nat" where
  "bit_length n = (if n = 0 then 0 else Suc (bit_length (n div 2)))"

declare bit_length.simps [simp del]

text \<open>\<open>floor_log2 a b\<close> is the integer \<open>f\<close> with \<open>2 ^ f \<le> a / b < 2 ^ (f + 1)\<close>, for positive \<open>a\<close>, \<open>b\<close>.\<close>

definition floor_log2 :: "nat \<Rightarrow> nat \<Rightarrow> int" where
  "floor_log2 a b =
     (let d = int (bit_length a) - int (bit_length b)
      in if (if 0 \<le> d then b * 2 ^ nat d \<le> a else b \<le> a * 2 ^ nat (- d)) then d else d - 1)"

text \<open>The quotient \<open>n / d\<close> rounded to the nearest natural number, ties to even.\<close>

definition round_half_even :: "nat \<Rightarrow> nat \<Rightarrow> nat" where
  "round_half_even n d =
     (let q = n div d; r = n mod d
      in if 2 * r < d then q
         else if d < 2 * r then q + 1
         else if even q then q else q + 1)"

text \<open>
  The binary64 magnitude nearest to \<open>a / b\<close> for positive \<open>a\<close> and \<open>b\<close>: the exponent is
  chosen so that the significand has 53 bits (or is subnormal, at exponent \<open>- 1074\<close>), and
  the scaled quotient is rounded to it.
\<close>

definition float_quotient :: "nat \<Rightarrow> nat \<Rightarrow> nat \<times> int" where
  "float_quotient a b =
     (let e = max (floor_log2 a b - 52) (- 1074)
      in if 0 \<le> e then (round_half_even a (b * 2 ^ nat e), e)
         else (round_half_even (a * 2 ^ nat (- e)) b, e))"

text \<open>Truncation of the magnitude \<open>m * 2 ^ e\<close> to a natural number.\<close>

definition float_trunc :: "nat \<times> int \<Rightarrow> nat" where
  "float_trunc x = (case x of (m, e) \<Rightarrow> if 0 \<le> e then m * 2 ^ nat e else m div 2 ^ nat (- e))"

text \<open>A magnitude is finite in binary64 when it is below \<open>2 ^ 1024\<close>.\<close>

definition float_finite :: "nat \<times> int \<Rightarrow> bool" where
  "float_finite x = (case x of (m, e) \<Rightarrow> e < 0 \<or> m * 2 ^ nat e < 2 ^ 1024)"

text \<open>\<^verbatim>\<open>int(a / b)\<close> for Python integers \<open>a\<close> and \<open>b\<close>.\<close>

definition py_int_truediv :: "int \<Rightarrow> int \<Rightarrow> py_error + int" where
  "py_int_truediv a b =
     (if b = 0 then Inl ZeroDivisionError
      else if a = 0 then Inr 0
      else let x = float_quotient (nat \<bar>a\<bar>) (nat \<bar>b\<bar>)
           in if float_finite x then Inr (sgn a * sgn b * int (float_trunc x))
              else Inl OverflowError)"

text \<open>Python's \<^verbatim>\<open>xs[i]\<close> on a list: a negative index counts from the end.\<close>

definition py_getitem :: "'a list \<Rightarrow> int \<Rightarrow> py_error + 'a" where
  "py_getitem xs i =
     (if 0 \<le> i \<and> i < int (length xs) then Inr (xs ! nat i)
      else if - int (length xs) \<le> i \<and> i < 0 then Inr (xs ! nat (int (length xs) + i))
      else Inl IndexError)"

section \<open>The physics engine as seen by the script\<close>

text \<open>
  A contact as the engine reports it: the ids of the two geoms, the friction coefficients
  and the contact frame (nine numbers, the first three being the normal).
\<close>

record contact =
  geom1 :: int
  geom2 :: int
  friction :: "real list"
  frame :: "real list"

text \<open>
  The part of \<^verbatim>\<open>sim.data\<close> the script reads or writes: the actuator control array,
  the applied and bias generalised forces, the contact buffer and the number of active
  contacts. Everything else the engine keeps is the opaque field \<open>engine\<close>.
  Python floats are modelled as reals: the script copies them and never computes with them.
\<close>

record 'e mjdata =
  ctrl :: "real list"
  qfrc_applied :: "real list"
  qfrc_bias :: "real list"
  contact :: "contact list"
  ncon :: nat
  engine :: 'e

text \<open>
  The external calls of the script. Lookups by name raise when the name is unknown;
  \<^verbatim>\<open>geom_id2name\<close> raises on an id that is not a geom and returns \<^verbatim>\<open>None\<close> for a
  geom without a name. Ids and addresses returned by the engine are array offsets, hence
  natural numbers. \<open>sim_step\<close> and \<open>viewer_render\<close> are arbitrary functions of the
  engine data that may raise; \<open>py_id\<close> is Python's \<^verbatim>\<open>id\<close> on a contact object, left
  uninterpreted; \<open>gripper_actuators\<close> is the list \<^verbatim>\<open>gripper.actuators\<close> of the
  gripper model.
\<close>

record ('e, 's) mj_api =
  get_joint_qvel_addr :: "string \<Rightarrow> py_error + nat"
  actuator_name2id :: "string \<Rightarrow> py_error + nat"
  geom_id2name :: "int \<Rightarrow> py_error + string option"
  gripper_actuators :: "string list"
  get_state :: "'e mjdata \<Rightarrow> 's"
  set_state :: "'s \<Rightarrow> 'e mjdata \<Rightarrow> 'e mjdata"
  sim_step :: "'e mjdata \<Rightarrow> py_error + 'e mjdata"
  viewer_render :: "'e mjdata \<Rightarrow> py_error + 'e mjdata"
  py_id :: "contact \<Rightarrow> int"

subsection \<open>Array indexing\<close>

text \<open>\<^verbatim>\<open>a[i] = v\<close> on an array with an integer offset \<open>i\<close>.\<close>

definition np_setitem :: "'a list \<Rightarrow> nat \<Rightarrow> 'a \<Rightarrow> py_error + 'a list" where
  "np_setitem a i v = (if i < length a then Inr (a[i := v]) else Inl IndexError)"

text \<open>The element-wise assignments \<^verbatim>\<open>a[ids[k]] = vals[k]\<close>, in order of \<open>k\<close>.\<close>

fun assign_each :: "'a list \<Rightarrow> nat list \<Rightarrow> 'a list \<Rightarrow> 'a list" where
  "assign_each a (i # ids) (v # vals) = assign_each (a[i := v]) ids vals"
| "assign_each a _ _ = a"

text \<open>
  \<^verbatim>\<open>a[ids] = vals\<close> with a list of offsets and a list of values (the script never uses
  a one-element value list, so the only shapes that broadcast are equal lengths): a shape
  mismatch raises \<^verbatim>\<open>ValueError\<close>, an offset out of range raises \<^verbatim>\<open>IndexError\<close>, and
  with a repeated offset the last assignment stays.
\<close>

definition np_setitems :: "'a list \<Rightarrow> nat list \<Rightarrow> 'a list \<Rightarrow> py_error + 'a list" where
  "np_setitems a ids vals =
     (if length ids \<noteq> length vals then Inl ValueError
      else if \<exists>i \<in> set ids. length a \<le> i then Inl IndexError
      else Inr (assign_each a ids vals))"

text \<open>\<^verbatim>\<open>a[ids]\<close> with a list of offsets.\<close>

definition np_getitems :: "'a list \<Rightarrow> nat list \<Rightarrow> py_error + 'a list" where
  "np_getitems a ids =
     (if \<exists>i \<in> set ids. length a \<le> i then Inl IndexError else Inr (map (\<lambda>i. a ! i) ids))"

text \<open>A list comprehension \<^verbatim>\<open>[f(x) for x in xs]\<close> whose call may raise.\<close>

fun comprehension :: "('a \<Rightarrow> py_error + 'b) \<Rightarrow> 'a list \<Rightarrow> py_error + 'b list" where
  "comprehension f [] = Inr []"
| "comprehension f (x # xs) =
     (case f x of
        Inl err \<Rightarrow> Inl err
      | Inr y \<Rightarrow> (case comprehension f xs of Inl err \<Rightarrow> Inl err | Inr ys \<Rightarrow> Inr (y # ys)))"

section \<open>The script\<close>

subsection \<open>Constants\<close>

definition gravity_corrected :: "string list" where
  "gravity_corrected = [''gripper_z_joint'']"

definition gripper_z_low :: real where
  "gripper_z_low = 0.07"

definition gripper_z_high :: real where
  "gripper_z_high = - 0.02"

definition gripper_open :: "real list" where
  "gripper_open = [- 0.0115, 0.0115]"

definition gripper_closed :: "real list" where
  "gripper_closed = [0.020833, - 0.020833]"

definition seq :: "(bool \<times> bool) list" where
  "seq = [(False, False), (True, False), (True, True), (False, True)]"

definition T :: int where
  "T = 500"

subsection \<open>Observable effects\<close>

text \<open>
  The prints of the script and its writes and calls into the engine, in the order they
  happen. A print is recorded with the values that are formatted, not with the text.
\<close>

datatype event =
    Print_step int
  | Print_geoms "string option" "string option"
  | Print_contact_id int
  | Print_friction "real list"
  | Print_normal "real list"
  | Print_plan bool bool
  | Ctrl_write "nat list" "real list"
  | Sim_step
  | Qfrc_write "nat list" "real list"
  | Render

text \<open>The events that are prints.\<close>

fun is_print :: "event \<Rightarrow> bool" where
  "is_print (Print_step _) = True"
| "is_print (Print_geoms _ _) = True"
| "is_print (Print_contact_id _) = True"
| "is_print (Print_friction _) = True"
| "is_print (Print_normal _) = True"
| "is_print (Print_plan _ _) = True"
| "is_print _ = False"

subsection \<open>Setup\<close>

text \<open>The three values the setup phase looks up in the engine (lines 90 to 104).\<close>

record config =
  ref_joint_vel_indexes :: "nat list"
  gripper_z_id :: nat
  gripper_jaw_ids :: "nat list"

definition setup_phase :: "('e, 's) mj_api \<Rightarrow> py_error + config" where
  "setup_phase api =
     (case comprehension (get_joint_qvel_addr api) gravity_corrected of
        Inl err \<Rightarrow> Inl err
      | Inr idxs \<Rightarrow>
     (case actuator_name2id api ''gripper_z'' of
        Inl err \<Rightarrow> Inl err
      | Inr zid \<Rightarrow>
     (case comprehension (actuator_name2id api) (gripper_actuators api) of
        Inl err \<Rightarrow> Inl err
      | Inr jaws \<Rightarrow>
          Inr \<lparr>ref_joint_vel_indexes = idxs, gripper_z_id = zid, gripper_jaw_ids = jaws\<rparr>)))"

text \<open>The variables of the loop, the engine data and the effects so far.\<close>

record 'e loop_state =
  step :: int
  gripper_z_is_low :: bool
  gripper_is_closed :: bool
  sim_data :: "'e mjdata"
  trace :: "event list"

text \<open>
  The state on entry to the loop (lines 88 to 115): the flags as initialised, the engine
  state saved before the lookups and restored after them, the counter at zero.
\<close>

definition init_state :: "('e, 's) mj_api \<Rightarrow> 'e mjdata \<Rightarrow> 'e loop_state" where
  "init_state api d =
     \<lparr>step = 0, gripper_z_is_low = False, gripper_is_closed = True,
      sim_data = set_state api (get_state api d) d, trace = []\<rparr>"

subsection \<open>The loop body\<close>

text \<open>The \<^verbatim>\<open>for contact in ...\<close> loop of lines 122 to 132, appending its prints to \<open>out\<close>.\<close>

fun print_contacts ::
  "('e, 's) mj_api \<Rightarrow> contact list \<Rightarrow> event list \<Rightarrow> py_error + event list" where
  "print_contacts api [] out = Inr out"
| "print_contacts api (c # cs) out =
     (case geom_id2name api (geom1 c) of
        Inl err \<Rightarrow> Inl err
      | Inr geom_name1 \<Rightarrow>
     (case geom_id2name api (geom2 c) of
        Inl err \<Rightarrow> Inl err
      | Inr geom_name2 \<Rightarrow>
          if geom_name1 = Some ''floor'' \<and> geom_name2 = Some ''floor''
          then print_contacts api cs out
          else print_contacts api cs
                 (out @ [Print_geoms geom_name1 geom_name2,
                         Print_contact_id (py_id api c),
                         Print_friction (friction c),
                         Print_normal (take 3 (frame c))])))"

text \<open>Lines 118 to 132: the diagnostics, every hundredth iteration.\<close>

definition diagnostics :: "('e, 's) mj_api \<Rightarrow> 'e loop_state \<Rightarrow> py_error + 'e loop_state" where
  "diagnostics api s =
     (if step s mod 100 = 0
      then (case print_contacts api
                   (take (ncon (sim_data s)) (contact (sim_data s)))
                   (trace s @ [Print_step (step s)]) of
              Inl err \<Rightarrow> Inl err
            | Inr out \<Rightarrow> Inr (s\<lparr>trace := out\<rparr>))
      else Inr s)"

text \<open>Line 136: the expression \<^verbatim>\<open>seq[int(step / T) % len(seq)]\<close>.\<close>

definition plan_lookup :: "int \<Rightarrow> py_error + bool \<times> bool" where
  "plan_lookup n =
     (case py_int_truediv n T of
        Inl err \<Rightarrow> Inl err
      | Inr k \<Rightarrow> py_getitem seq (k mod int (length seq)))"

text \<open>Lines 135 to 142: the plan entry is replaced when the counter is a multiple of \<open>T\<close>.\<close>

definition plan_update :: "'e loop_state \<Rightarrow> py_error + 'e loop_state" where
  "plan_update s =
     (if step s mod T = 0
      then (case plan_lookup (step s) of
              Inl err \<Rightarrow> Inl err
            | Inr plan \<Rightarrow>
                Inr (s\<lparr>gripper_z_is_low := fst plan, gripper_is_closed := snd plan,
                       trace := trace s @ [Print_plan (fst plan) (snd plan)]\<rparr>))
      else Inr s)"

text \<open>The pair of flags that the control block of an iteration reads.\<close>

definition active_plan :: "'e loop_state \<Rightarrow> bool \<times> bool" where
  "active_plan s = (gripper_z_is_low s, gripper_is_closed s)"

text \<open>The setpoints the flags select (lines 145 to 152).\<close>

definition height_setpoint :: "bool \<Rightarrow> real" where
  "height_setpoint low = (if low then gripper_z_low else gripper_z_high)"

definition finger_setpoint :: "bool \<Rightarrow> real list" where
  "finger_setpoint is_closed = (if is_closed then gripper_closed else gripper_open)"

text \<open>Lines 145 to 152: the two writes to \<^verbatim>\<open>sim.data.ctrl\<close>.\<close>

definition control :: "config \<Rightarrow> 'e loop_state \<Rightarrow> py_error + 'e loop_state" where
  "control cfg s =
     (let z = height_setpoint (gripper_z_is_low s);
          jaws = finger_setpoint (gripper_is_closed s)
      in case np_setitem (ctrl (sim_data s)) (gripper_z_id cfg) z of
           Inl err \<Rightarrow> Inl err
         | Inr c1 \<Rightarrow>
        (case np_setitems c1 (gripper_jaw_ids cfg) jaws of
           Inl err \<Rightarrow> Inl err
         | Inr c2 \<Rightarrow>
             Inr (s\<lparr>sim_data := (sim_data s)\<lparr>ctrl := c2\<rparr>,
                    trace := trace s @ [Ctrl_write [gripper_z_id cfg] [z],
                                        Ctrl_write (gripper_jaw_ids cfg) jaws]\<rparr>)))"

text \<open>Line 155: the engine step.\<close>

definition engine_step :: "('e, 's) mj_api \<Rightarrow> 'e loop_state \<Rightarrow> py_error + 'e loop_state" where
  "engine_step api s =
     (case sim_step api (sim_data s) of
        Inl err \<Rightarrow> Inl err
      | Inr d \<Rightarrow> Inr (s\<lparr>sim_data := d, trace := trace s @ [Sim_step]\<rparr>))"

text \<open>Lines 156 to 158: the bias force is copied to the applied force at the joint's address.\<close>

definition gravity_compensation :: "config \<Rightarrow> 'e loop_state \<Rightarrow> py_error + 'e loop_state" where
  "gravity_compensation cfg s =
     (case np_getitems (qfrc_bias (sim_data s)) (ref_joint_vel_indexes cfg) of
        Inl err \<Rightarrow> Inl err
      | Inr vals \<Rightarrow>
     (case np_setitems (qfrc_applied (sim_data s)) (ref_joint_vel_indexes cfg) vals of
        Inl err \<Rightarrow> Inl err
      | Inr q \<Rightarrow>
          Inr (s\<lparr>sim_data := (sim_data s)\<lparr>qfrc_applied := q\<rparr>,
                 trace := trace s @ [Qfrc_write (ref_joint_vel_indexes cfg) vals]\<rparr>)))"

text \<open>Lines 159 and 160: the render call and the increment of the counter.\<close>

definition render_and_count :: "('e, 's) mj_api \<Rightarrow> 'e loop_state \<Rightarrow> py_error + 'e loop_state" where
  "render_and_count api s =
     (case viewer_render api (sim_data s) of
        Inl err \<Rightarrow> Inl err
      | Inr d \<Rightarrow> Inr (s\<lparr>sim_data := d, trace := trace s @ [Render], step := step s + 1\<rparr>))"

text \<open>Sequencing of two statements: an exception of the first skips the second.\<close>

definition and_then ::
  "py_error + 'a \<Rightarrow> ('a \<Rightarrow> py_error + 'b) \<Rightarrow> py_error + 'b" where
  "and_then r f = (case r of Inl err \<Rightarrow> Inl err | Inr x \<Rightarrow> f x)"

text \<open>One iteration of the \<^verbatim>\<open>while True\<close> loop (lines 118 to 160).\<close>

definition loop_body ::
  "('e, 's) mj_api \<Rightarrow> config \<Rightarrow> 'e loop_state \<Rightarrow> py_error + 'e loop_state" where
  "loop_body api cfg s =
     and_then (diagnostics api s) (\<lambda>s1.
     and_then (plan_update s1) (\<lambda>s2.
     and_then (control cfg s2) (\<lambda>s3.
     and_then (engine_step api s3) (\<lambda>s4.
     and_then (gravity_compensation cfg s4) (\<lambda>s5.
     render_and_count api s5)))))"

text \<open>
  The loop has no exit: it ends only by an exception. \<open>run_loop api cfg n s\<close> is the
  state after \<open>n\<close> iterations from \<open>s\<close>, or the exception that ended the loop earlier.
\<close>

fun run_loop ::
  "('e, 's) mj_api \<Rightarrow> config \<Rightarrow> nat \<Rightarrow> 'e loop_state \<Rightarrow> py_error + 'e loop_state" where
  "run_loop api cfg 0 s = Inr s"
| "run_loop api cfg (Suc n) s =
     (case loop_body api cfg s of
        Inl err \<Rightarrow> Inl err
      | Inr s' \<Rightarrow> run_loop api cfg n s')"

text \<open>The script from line 90 on, observed after \<open>n\<close> iterations of the loop.\<close>

definition main :: "('e, 's) mj_api \<Rightarrow> 'e mjdata \<Rightarrow> nat \<Rightarrow> py_error + 'e loop_state" where
  "main api d n =
     (case setup_phase api of
        Inl err \<Rightarrow> Inl err
      | Inr cfg \<Rightarrow> run_loop api cfg n (init_state api d))"

subsection \<open>Observations\<close>

text \<open>An event with the value of the counter print left out.\<close>

fun forget_step :: "event \<Rightarrow> event" where
  "forget_step (Print_step n) = Print_step 0"
| "forget_step e = e"

text \<open>What an iteration leaves behind, apart from the counter and its printed values.\<close>

definition observation :: "'e loop_state \<Rightarrow> 'e mjdata \<times> bool \<times> bool \<times> event list" where
  "observation s = (sim_data s, gripper_z_is_low s, gripper_is_closed s, map forget_step (trace s))"

text \<open>
  Two states that differ at most in the counter (and its printed values), with the same
  outcome of the two tests on the counter and of the plan lookup.
\<close>

definition agree :: "'e loop_state \<Rightarrow> 'e loop_state \<Rightarrow> bool" where
  "agree s t \<longleftrightarrow>
     observation s = observation t \<and>
     (step s mod 100 = 0 \<longleftrightarrow> step t mod 100 = 0) \<and>
     (step s mod T = 0 \<longleftrightarrow> step t mod T = 0) \<and>
     (step s mod T = 0 \<longrightarrow> plan_lookup (step s) = plan_lookup (step t))"

subsection \<open>A small engine\<close>

text \<open>
  A concrete engine on which the script can be run: one slide joint at velocity address
  \<open>0\<close>, four actuators of which the script owns three, three named or unnamed geoms and
  a contact buffer of three contacts, two of them active. Its step recomputes the bias
  force; its viewer changes nothing.
\<close>

definition example_api :: "(unit, unit) mj_api" where
  "example_api =
     \<lparr>get_joint_qvel_addr = (\<lambda>name. if name = ''gripper_z_joint'' then Inr 0 else Inl ValueError),
      actuator_name2id =
        (\<lambda>name. if name = ''jaw_r'' then Inr 0
                 else if name = ''jaw_l'' then Inr 1
                 else if name = ''gripper_z'' then Inr 3
                 else Inl ValueError),
      geom_id2name =
        (\<lambda>i. if i = 0 then Inr (Some ''floor'')
              else if i = 1 then Inr (Some ''box_g0'')
              else if i = 2 then Inr None
              else Inl ValueError),
      gripper_actuators = [''jaw_r'', ''jaw_l''],
      get_state = (\<lambda>d. ()),
      set_state = (\<lambda>st d. d),
      sim_step = (\<lambda>d. Inr (d\<lparr>qfrc_bias := [9.81]\<rparr>)),
      viewer_render = (\<lambda>d. Inr d),
      py_id = (\<lambda>c. 0)\<rparr>"

definition example_data :: "unit mjdata" where
  "example_data =
     \<lparr>ctrl = [0, 0, 5, 0],
      qfrc_applied = [0],
      qfrc_bias = [0],
      contact =
        [\<lparr>geom1 = 0, geom2 = 0, friction = [1, 1, 0.005, 0.0001, 0.0001],
          frame = [0, 0, 1, 1, 0, 0, 0, 1, 0]\<rparr>,
         \<lparr>geom1 = 0, geom2 = 1, friction = [1, 1, 0.005, 0.0001, 0.0001],
          frame = [0, 0, 1, 0, 1, 0, 1, 0, 0]\<rparr>,
         \<lparr>geom1 = 7, geom2 = 7, friction = [], frame = []\<rparr>],
      ncon = 2,
      engine = ()\<rparr>"

definition example_cfg :: config where
  "example_cfg = \<lparr>ref_joint_vel_indexes = [0], gripper_z_id = 3, gripper_jaw_ids = [0, 1]\<rparr>"

definition example_state :: "unit loop_state" where
  "example_state = init_state example_api example_data"

text \<open>The state of the small engine's run after the first iteration.\<close>

definition example_next :: "unit loop_state" where
  "example_next =
     \<lparr>step = 1, gripper_z_is_low = False, gripper_is_closed = False,
      sim_data = example_data\<lparr>ctrl := [- 0.0115, 0.0115, 5, - 0.02],
                               qfrc_applied := [9.81], qfrc_bias := [9.81]\<rparr>,
      trace = [Print_step 0, Print_geoms (Some ''floor'') (Some ''box_g0''),
               Print_contact_id 0, Print_friction [1, 1, 0.005, 0.0001, 0.0001],
               Print_normal [0, 0, 1], Print_plan False False,
               Ctrl_write [3] [- 0.02], Ctrl_write [0, 1] [- 0.0115, 0.0115],
               Sim_step, Qfrc_write [0] [9.81], Render]\<rparr>"

text \<open>The shape of the engine data that every iteration on the small engine keeps.\<close>

definition example_ok :: "unit loop_state \<Rightarrow> bool" where
  "example_ok s \<longleftrightarrow>
     length (ctrl (sim_data s)) = 4 \<and>
     length (qfrc_applied (sim_data s)) = 1 \<and>
     contact (sim_data s) = contact example_data \<and>
     ncon (sim_data s) = 2"

section \<open>Properties\<close>

subsection \<open>The phases of one iteration\<close>

lemma and_then_Inr_iff: "and_then r f = Inr y \<longleftrightarrow> (\<exists>x. r = Inr x \<and> f x = Inr y)"
  by (cases r) (simp_all add: and_then_def)

lemma and_then_Inl_iff:
  "and_then r f = Inl e \<longleftrightarrow> r = Inl e \<or> (\<exists>x. r = Inr x \<and> f x = Inl e)"
  by (cases r) (simp_all add: and_then_def)

lemma loop_body_Inr_iff:
  "loop_body api cfg s = Inr s' \<longleftrightarrow>
     (\<exists>s1 s2 s3 s4 s5. diagnostics api s = Inr s1 \<and> plan_update s1 = Inr s2 \<and>
        control cfg s2 = Inr s3 \<and> engine_step api s3 = Inr s4 \<and>
        gravity_compensation cfg s4 = Inr s5 \<and> render_and_count api s5 = Inr s')"
  unfolding loop_body_def and_then_Inr_iff by blast

lemma print_contacts_Inr:
  assumes "print_contacts api cs out = Inr out'"
  shows "\<exists>names. list_all2 (\<lambda>c (n1, n2). geom_id2name api (geom1 c) = Inr n1 \<and>
                                       geom_id2name api (geom2 c) = Inr n2) cs names \<and>
           out' = out @ concat (map2 (\<lambda>c (n1, n2).
                    if n1 = Some ''floor'' \<and> n2 = Some ''floor'' then []
                    else [Print_geoms n1 n2, Print_contact_id (py_id api c),
                          Print_friction (friction c), Print_normal (take 3 (frame c))]) cs names)"
  using assms
proof (induction cs arbitrary: out)
  case Nil
  then show ?case by simp
next
  case (Cons c cs)
  from Cons.prems obtain n1 n2 where
    n1: "geom_id2name api (geom1 c) = Inr n1" and n2: "geom_id2name api (geom2 c) = Inr n2"
    by (auto split: sum.splits)
  let ?evs = "if n1 = Some ''floor'' \<and> n2 = Some ''floor'' then []
              else [Print_geoms n1 n2, Print_contact_id (py_id api c),
                    Print_friction (friction c), Print_normal (take 3 (frame c))]"
  have "print_contacts api cs (out @ ?evs) = Inr out'"
    using Cons.prems n1 n2 by (auto split: if_splits)
  from Cons.IH[OF this] obtain names where
    names: "list_all2 (\<lambda>c (n1, n2). geom_id2name api (geom1 c) = Inr n1 \<and>
                                       geom_id2name api (geom2 c) = Inr n2) cs names"
    and out': "out' = (out @ ?evs) @ concat (map2 (\<lambda>c (n1, n2).
                    if n1 = Some ''floor'' \<and> n2 = Some ''floor'' then []
                    else [Print_geoms n1 n2, Print_contact_id (py_id api c),
                          Print_friction (friction c), Print_normal (take 3 (frame c))]) cs names)"
    by blast
  show ?case
    by (rule exI[of _ "(n1, n2) # names"]) (use n1 n2 names out' in simp)
qed

lemma print_contacts_trace:
  "print_contacts api cs out = Inr out' \<Longrightarrow> \<exists>evs. out' = out @ evs"
  by (drule print_contacts_Inr) blast

lemma diagnostics_Inr:
  assumes "diagnostics api s = Inr s1"
  shows "\<exists>evs. s1 = s\<lparr>trace := trace s @ evs\<rparr>"
proof (cases "step s mod 100 = 0")
  case True
  with assms obtain out where o: "print_contacts api (take (ncon (sim_data s)) (contact (sim_data s)))
       (trace s @ [Print_step (step s)]) = Inr out" and s1: "s1 = s\<lparr>trace := out\<rparr>"
    by (auto simp: diagnostics_def split: sum.splits)
  from print_contacts_trace[OF o] obtain evs where "out = (trace s @ [Print_step (step s)]) @ evs" ..
  with s1 show ?thesis by auto
next
  case False
  with assms have "s1 = s\<lparr>trace := trace s @ []\<rparr>" by (simp add: diagnostics_def)
  then show ?thesis by blast
qed

lemma plan_update_Inr:
  assumes "plan_update s = Inr s2"
  shows "(step s mod T \<noteq> 0 \<and> s2 = s) \<or>
         (step s mod T = 0 \<and> (\<exists>p. plan_lookup (step s) = Inr p \<and>
            s2 = s\<lparr>gripper_z_is_low := fst p, gripper_is_closed := snd p,
                   trace := trace s @ [Print_plan (fst p) (snd p)]\<rparr>))"
  using assms by (auto simp: plan_update_def split: if_splits sum.splits)

lemma control_Inr:
  assumes "control cfg s = Inr s3"
  shows "gripper_z_id cfg < length (ctrl (sim_data s)) \<and>
         length (gripper_jaw_ids cfg) = 2 \<and>
         (\<forall>i \<in> set (gripper_jaw_ids cfg). i < length (ctrl (sim_data s))) \<and>
         s3 = s\<lparr>sim_data := (sim_data s)\<lparr>ctrl :=
                  assign_each ((ctrl (sim_data s))[gripper_z_id cfg := height_setpoint (gripper_z_is_low s)])
                    (gripper_jaw_ids cfg) (finger_setpoint (gripper_is_closed s))\<rparr>,
                trace := trace s @ [Ctrl_write [gripper_z_id cfg] [height_setpoint (gripper_z_is_low s)],
                                    Ctrl_write (gripper_jaw_ids cfg) (finger_setpoint (gripper_is_closed s))]\<rparr>"
  using assms
  by (auto simp: control_def Let_def np_setitem_def np_setitems_def finger_setpoint_def
        gripper_open_def gripper_closed_def not_le split: sum.splits if_splits)

lemma engine_step_Inr:
  "engine_step api s = Inr s4 \<longleftrightarrow>
     (\<exists>d. sim_step api (sim_data s) = Inr d \<and> s4 = s\<lparr>sim_data := d, trace := trace s @ [Sim_step]\<rparr>)"
  by (auto simp: engine_step_def split: sum.splits)

lemma render_and_count_Inr:
  "render_and_count api s = Inr s' \<longleftrightarrow>
     (\<exists>d. viewer_render api (sim_data s) = Inr d \<and>
          s' = s\<lparr>sim_data := d, trace := trace s @ [Render], step := step s + 1\<rparr>)"
  by (auto simp: render_and_count_def split: sum.splits)

lemma gravity_compensation_Inr:
  assumes "gravity_compensation cfg s = Inr s5"
  shows "(\<forall>i \<in> set (ref_joint_vel_indexes cfg).
            i < length (qfrc_bias (sim_data s)) \<and> i < length (qfrc_applied (sim_data s))) \<and>
         s5 = s\<lparr>sim_data := (sim_data s)\<lparr>qfrc_applied :=
                  assign_each (qfrc_applied (sim_data s)) (ref_joint_vel_indexes cfg)
                    (map (\<lambda>i. qfrc_bias (sim_data s) ! i) (ref_joint_vel_indexes cfg))\<rparr>,
                trace := trace s @ [Qfrc_write (ref_joint_vel_indexes cfg)
                    (map (\<lambda>i. qfrc_bias (sim_data s) ! i) (ref_joint_vel_indexes cfg))]\<rparr>"
  using assms
  by (auto simp: gravity_compensation_def np_getitems_def np_setitems_def not_le
        split: sum.splits if_splits)

lemma print_contacts_prints:
  assumes "print_contacts api cs out = Inr out'"
  shows "\<exists>evs. out' = out @ evs \<and> (\<forall>e \<in> set evs. is_print e)"
proof -
  from print_contacts_Inr[OF assms] obtain names where
    "out' = out @ concat (map2 (\<lambda>c (n1, n2).
                    if n1 = Some ''floor'' \<and> n2 = Some ''floor'' then []
                    else [Print_geoms n1 n2, Print_contact_id (py_id api c),
                          Print_friction (friction c), Print_normal (take 3 (frame c))]) cs names)"
    by blast
  moreover have "\<forall>e \<in> set (concat (map2 (\<lambda>c (n1, n2).
                    if n1 = Some ''floor'' \<and> n2 = Some ''floor'' then []
                    else [Print_geoms n1 n2, Print_contact_id (py_id api c),
                          Print_friction (friction c), Print_normal (take 3 (frame c))]) cs names)).
                  is_print e"
    by (auto split: if_splits)
  ultimately show ?thesis by blast
qed

lemma diagnostics_prints:
  assumes "diagnostics api s = Inr s1"
  shows "\<exists>evs. s1 = s\<lparr>trace := trace s @ evs\<rparr> \<and> (\<forall>e \<in> set evs. is_print e)"
proof (cases "step s mod 100 = 0")
  case True
  with assms obtain out where
    o: "print_contacts api (take (ncon (sim_data s)) (contact (sim_data s)))
          (trace s @ [Print_step (step s)]) = Inr out"
    and s1: "s1 = s\<lparr>trace := out\<rparr>"
    by (auto simp: diagnostics_def split: sum.splits)
  from print_contacts_prints[OF o] obtain evs where
    "out = (trace s @ [Print_step (step s)]) @ evs" and "\<forall>e \<in> set evs. is_print e" by blast
  with s1 have "s1 = s\<lparr>trace := trace s @ (Print_step (step s) # evs)\<rparr> \<and>
      (\<forall>e \<in> set (Print_step (step s) # evs). is_print e)" by simp
  then show ?thesis by blast
next
  case False
  with assms have "s1 = s\<lparr>trace := trace s @ []\<rparr> \<and> (\<forall>e \<in> set []. is_print e)"
    by (simp add: diagnostics_def)
  then show ?thesis by blast
qed

lemma plan_phase_Inr:
  assumes "and_then (diagnostics api s) plan_update = Inr s2"
  shows "\<exists>evs. (\<forall>e \<in> set evs. is_print e) \<and> trace s2 = trace s @ evs \<and>
           sim_data s2 = sim_data s \<and> step s2 = step s"
proof -
  from assms obtain s1 where d: "diagnostics api s = Inr s1" and p: "plan_update s1 = Inr s2"
    by (auto simp: and_then_Inr_iff)
  from diagnostics_prints[OF d] obtain evs where
    s1: "s1 = s\<lparr>trace := trace s @ evs\<rparr>" and evs: "\<forall>e \<in> set evs. is_print e" by blast
  from plan_update_Inr[OF p] show ?thesis
  proof
    assume "step s1 mod T \<noteq> 0 \<and> s2 = s1"
    with s1 evs show ?thesis by auto
  next
    assume "step s1 mod T = 0 \<and> (\<exists>p. plan_lookup (step s1) = Inr p \<and>
            s2 = s1\<lparr>gripper_z_is_low := fst p, gripper_is_closed := snd p,
                   trace := trace s1 @ [Print_plan (fst p) (snd p)]\<rparr>)"
    then obtain p where "s2 = s1\<lparr>gripper_z_is_low := fst p, gripper_is_closed := snd p,
                   trace := trace s1 @ [Print_plan (fst p) (snd p)]\<rparr>" by blast
    with s1 have "trace s2 = trace s @ (evs @ [Print_plan (fst p) (snd p)])"
      and "sim_data s2 = sim_data s" and "step s2 = step s" by simp_all
    moreover from evs have "\<forall>e \<in> set (evs @ [Print_plan (fst p) (snd p)]). is_print e" by simp
    ultimately show ?thesis by blast
  qed
qed

lemma loop_body_phases:
  assumes "loop_body api cfg s = Inr s'"
  shows "\<exists>s2 s3 d.
     and_then (diagnostics api s) plan_update = Inr s2 \<and>
     control cfg s2 = Inr s3 \<and>
     sim_step api (sim_data s3) = Inr d \<and>
     (\<forall>i \<in> set (ref_joint_vel_indexes cfg). i < length (qfrc_bias d) \<and> i < length (qfrc_applied d)) \<and>
     viewer_render api (d\<lparr>qfrc_applied := assign_each (qfrc_applied d) (ref_joint_vel_indexes cfg)
                    (map (\<lambda>i. qfrc_bias d ! i) (ref_joint_vel_indexes cfg))\<rparr>) = Inr (sim_data s') \<and>
     trace s' = trace s3 @ [Sim_step,
        Qfrc_write (ref_joint_vel_indexes cfg) (map (\<lambda>i. qfrc_bias d ! i) (ref_joint_vel_indexes cfg)),
        Render] \<and>
     step s' = step s3 + 1 \<and> gripper_z_is_low s' = gripper_z_is_low s3 \<and>
     gripper_is_closed s' = gripper_is_closed s3"
proof -
  from assms obtain s1 s2 s3 s4 s5 where
    1: "diagnostics api s = Inr s1" and 2: "plan_update s1 = Inr s2" and
    3: "control cfg s2 = Inr s3" and 4: "engine_step api s3 = Inr s4" and
    5: "gravity_compensation cfg s4 = Inr s5" and 6: "render_and_count api s5 = Inr s'"
    unfolding loop_body_Inr_iff by blast
  from 1 2 have a: "and_then (diagnostics api s) plan_update = Inr s2"
    by (simp add: and_then_Inr_iff)
  from 4 obtain d where d: "sim_step api (sim_data s3) = Inr d"
    and s4: "s4 = s3\<lparr>sim_data := d, trace := trace s3 @ [Sim_step]\<rparr>"
    unfolding engine_step_Inr by blast
  note g = gravity_compensation_Inr[OF 5]
  from 6 obtain d' where r: "viewer_render api (sim_data s5) = Inr d'"
    and s': "s' = s5\<lparr>sim_data := d', trace := trace s5 @ [Render], step := step s5 + 1\<rparr>"
    unfolding render_and_count_Inr by blast
  show ?thesis
    apply (rule exI[of _ s2], rule exI[of _ s3], rule exI[of _ d])
    using a 3 d g r s' s4 by simp
qed

lemma setup_phase_Inr:
  assumes "setup_phase api = Inr cfg"
  shows "\<exists>a. get_joint_qvel_addr api ''gripper_z_joint'' = Inr a \<and>
             ref_joint_vel_indexes cfg = [a] \<and>
             actuator_name2id api ''gripper_z'' = Inr (gripper_z_id cfg) \<and>
             comprehension (actuator_name2id api) (gripper_actuators api) = Inr (gripper_jaw_ids cfg)"
  using assms
  by (auto simp: setup_phase_def gravity_corrected_def split: sum.splits)

lemma example_setup: "setup_phase example_api = Inr example_cfg"
  by (simp add: setup_phase_def gravity_corrected_def example_api_def example_cfg_def)

lemma example_diagnostics:
  "diagnostics example_api example_state =
     Inr (example_state
       \<lparr>trace := [Print_step 0, Print_geoms (Some ''floor'') (Some ''box_g0''),
                  Print_contact_id 0, Print_friction [1, 1, 0.005, 0.0001, 0.0001],
                  Print_normal [0, 0, 1]]\<rparr>)"
  by (simp add: diagnostics_def example_state_def init_state_def example_api_def example_data_def)

lemma plan_lookup_0: "plan_lookup 0 = Inr (False, False)"
  by (simp add: plan_lookup_def py_int_truediv_def T_def py_getitem_def seq_def)

lemma example_iteration: "loop_body example_api example_cfg example_state = Inr example_next"
  by (simp add: loop_body_def and_then_def diagnostics_def plan_update_def plan_lookup_0
      T_def control_def engine_step_def gravity_compensation_def render_and_count_def
      np_setitem_def np_setitems_def np_getitems_def height_setpoint_def finger_setpoint_def
      gripper_z_high_def gripper_open_def example_next_def Let_def
      example_state_def init_state_def example_api_def example_data_def example_cfg_def)


lemma control_ctrl:
  assumes "control cfg s2 = Inr s3"
  shows "\<exists>j0 j1. gripper_jaw_ids cfg = [j0, j1] \<and>
           gripper_z_id cfg < length (ctrl (sim_data s2)) \<and>
           j0 < length (ctrl (sim_data s2)) \<and> j1 < length (ctrl (sim_data s2)) \<and>
           ctrl (sim_data s3) = (ctrl (sim_data s2))
             [gripper_z_id cfg := height_setpoint (gripper_z_is_low s2),
              j0 := finger_setpoint (gripper_is_closed s2) ! 0,
              j1 := finger_setpoint (gripper_is_closed s2) ! 1] \<and>
           trace s3 = trace s2 @
             [Ctrl_write [gripper_z_id cfg] [height_setpoint (gripper_z_is_low s2)],
              Ctrl_write [j0, j1] (finger_setpoint (gripper_is_closed s2))]"
proof -
  note c = control_Inr[OF assms]
  from c obtain j0 j1 where j: "gripper_jaw_ids cfg = [j0, j1]"
    by (cases "gripper_jaw_ids cfg"; cases "tl (gripper_jaw_ids cfg)") auto
  have f: "finger_setpoint (gripper_is_closed s2) =
      [finger_setpoint (gripper_is_closed s2) ! 0, finger_setpoint (gripper_is_closed s2) ! 1]"
    by (simp add: finger_setpoint_def gripper_closed_def gripper_open_def)
  have "assign_each ((ctrl (sim_data s2))[gripper_z_id cfg := height_setpoint (gripper_z_is_low s2)])
          [j0, j1] (finger_setpoint (gripper_is_closed s2)) =
        (ctrl (sim_data s2))
             [gripper_z_id cfg := height_setpoint (gripper_z_is_low s2),
              j0 := finger_setpoint (gripper_is_closed s2) ! 0,
              j1 := finger_setpoint (gripper_is_closed s2) ! 1]"
    by (subst f) simp
  with c j show ?thesis by simp
qed

text \<open>
  C2. In every iteration that completes, the pair of flags left by the plan block selects
  the setpoints: the height entry of the control array is assigned 0.07 when
  \<open>gripper_z_is_low\<close> holds and -0.02 otherwise, then the two finger entries are assigned
  0.020833 and -0.020833 when \<open>gripper_is_closed\<close> holds and -0.0115 and 0.0115
  otherwise. The engine is stepped once, on the data that carry these assignments, and the
  render call follows the step: the effects after the prints are the two control writes,
  the step, the force copy and the render, in this order.
\<close>

theorem C2_setpoints_written_before_step_and_render:
  assumes "loop_body api cfg s = Inr s'"
  shows "\<exists>s2 s3 d vals j0 j1.
     and_then (diagnostics api s) plan_update = Inr s2 \<and>
     control cfg s2 = Inr s3 \<and>
     gripper_jaw_ids cfg = [j0, j1] \<and>
     gripper_z_id cfg < length (ctrl (sim_data s2)) \<and>
     j0 < length (ctrl (sim_data s2)) \<and> j1 < length (ctrl (sim_data s2)) \<and>
     ctrl (sim_data s3) = (ctrl (sim_data s2))
       [gripper_z_id cfg := (if gripper_z_is_low s2 then 0.07 else - 0.02),
        j0 := (if gripper_is_closed s2 then 0.020833 else - 0.0115),
        j1 := (if gripper_is_closed s2 then - 0.020833 else 0.0115)] \<and>
     (distinct [gripper_z_id cfg, j0, j1] \<longrightarrow>
        ctrl (sim_data s3) ! gripper_z_id cfg = (if gripper_z_is_low s2 then 0.07 else - 0.02) \<and>
        ctrl (sim_data s3) ! j0 = (if gripper_is_closed s2 then 0.020833 else - 0.0115) \<and>
        ctrl (sim_data s3) ! j1 = (if gripper_is_closed s2 then - 0.020833 else 0.0115)) \<and>
     sim_step api (sim_data s3) = Inr d \<and>
     trace s' = trace s2 @
       [Ctrl_write [gripper_z_id cfg] [if gripper_z_is_low s2 then 0.07 else - 0.02],
        Ctrl_write [j0, j1]
          (if gripper_is_closed s2 then [0.020833, - 0.020833] else [- 0.0115, 0.0115]),
        Sim_step, Qfrc_write (ref_joint_vel_indexes cfg) vals, Render]"
proof -
  from loop_body_phases[OF assms] obtain s2 s3 d where
    p: "and_then (diagnostics api s) plan_update = Inr s2" and
    c: "control cfg s2 = Inr s3" and
    d: "sim_step api (sim_data s3) = Inr d" and
    t: "trace s' = trace s3 @ [Sim_step,
        Qfrc_write (ref_joint_vel_indexes cfg) (map (\<lambda>i. qfrc_bias d ! i) (ref_joint_vel_indexes cfg)),
        Render]"
    by blast
  from control_ctrl[OF c] obtain j0 j1 where
    j: "gripper_jaw_ids cfg = [j0, j1]" and
    r: "gripper_z_id cfg < length (ctrl (sim_data s2))"
       "j0 < length (ctrl (sim_data s2))" "j1 < length (ctrl (sim_data s2))" and
    u: "ctrl (sim_data s3) = (ctrl (sim_data s2))
             [gripper_z_id cfg := height_setpoint (gripper_z_is_low s2),
              j0 := finger_setpoint (gripper_is_closed s2) ! 0,
              j1 := finger_setpoint (gripper_is_closed s2) ! 1]" and
    t3: "trace s3 = trace s2 @
             [Ctrl_write [gripper_z_id cfg] [height_setpoint (gripper_z_is_low s2)],
              Ctrl_write [j0, j1] (finger_setpoint (gripper_is_closed s2))]"
    by blast
  have h: "height_setpoint (gripper_z_is_low s2) = (if gripper_z_is_low s2 then 0.07 else - 0.02)"
    by (simp add: height_setpoint_def gripper_z_low_def gripper_z_high_def)
  have f0: "finger_setpoint (gripper_is_closed s2) ! 0 =
      (if gripper_is_closed s2 then 0.020833 else - 0.0115)"
    and f1: "finger_setpoint (gripper_is_closed s2) ! 1 =
      (if gripper_is_closed s2 then - 0.020833 else 0.0115)"
    and f: "finger_setpoint (gripper_is_closed s2) =
      (if gripper_is_closed s2 then [0.020833, - 0.020833] else [- 0.0115, 0.0115])"
    by (simp_all add: finger_setpoint_def gripper_closed_def gripper_open_def)
  note u' = u[unfolded h f0 f1]
  have v: "distinct [gripper_z_id cfg, j0, j1] \<longrightarrow>
        ctrl (sim_data s3) ! gripper_z_id cfg = (if gripper_z_is_low s2 then 0.07 else - 0.02) \<and>
        ctrl (sim_data s3) ! j0 = (if gripper_is_closed s2 then 0.020833 else - 0.0115) \<and>
        ctrl (sim_data s3) ! j1 = (if gripper_is_closed s2 then - 0.020833 else 0.0115)"
    unfolding u' using r by simp
  from t t3 have t': "trace s' = trace s2 @
       [Ctrl_write [gripper_z_id cfg] [if gripper_z_is_low s2 then 0.07 else - 0.02],
        Ctrl_write [j0, j1]
          (if gripper_is_closed s2 then [0.020833, - 0.020833] else [- 0.0115, 0.0115]),
        Sim_step,
        Qfrc_write (ref_joint_vel_indexes cfg)
          (map (\<lambda>i. qfrc_bias d ! i) (ref_joint_vel_indexes cfg)), Render]"
    unfolding h f by simp
  from p c j r u' v d t' show ?thesis by blast
qed


theorem C2_witness:
  "loop_body example_api example_cfg example_state = Inr example_next \<and>
   (\<exists>s2 s3 d vals j0 j1.
     and_then (diagnostics example_api example_state) plan_update = Inr s2 \<and>
     control example_cfg s2 = Inr s3 \<and>
     gripper_jaw_ids example_cfg = [j0, j1] \<and>
     gripper_z_id example_cfg < length (ctrl (sim_data s2)) \<and>
     j0 < length (ctrl (sim_data s2)) \<and> j1 < length (ctrl (sim_data s2)) \<and>
     ctrl (sim_data s3) = (ctrl (sim_data s2))
       [gripper_z_id example_cfg := (if gripper_z_is_low s2 then 0.07 else - 0.02),
        j0 := (if gripper_is_closed s2 then 0.020833 else - 0.0115),
        j1 := (if gripper_is_closed s2 then - 0.020833 else 0.0115)] \<and>
     (distinct [gripper_z_id example_cfg, j0, j1] \<longrightarrow>
        ctrl (sim_data s3) ! gripper_z_id example_cfg =
          (if gripper_z_is_low s2 then 0.07 else - 0.02) \<and>
        ctrl (sim_data s3) ! j0 = (if gripper_is_closed s2 then 0.020833 else - 0.0115) \<and>
        ctrl (sim_data s3) ! j1 = (if gripper_is_closed s2 then - 0.020833 else 0.0115)) \<and>
     sim_step example_api (sim_data s3) = Inr d \<and>
     trace example_next = trace s2 @
       [Ctrl_write [gripper_z_id example_cfg] [if gripper_z_is_low s2 then 0.07 else - 0.02],
        Ctrl_write [j0, j1]
          (if gripper_is_closed s2 then [0.020833, - 0.020833] else [- 0.0115, 0.0115]),
        Sim_step, Qfrc_write (ref_joint_vel_indexes example_cfg) vals, Render])"
  by (rule conjI[OF example_iteration
        C2_setpoints_written_before_step_and_render[OF example_iteration]])

text \<open>
  C4. In every iteration that completes, the script assigns the control array exactly
  twice, before the engine step: one assignment to the height actuator's entry and one to
  the two finger actuators' entries, with values from the two tables. The array keeps its
  length and every entry other than these keeps its value up to the engine step; the
  script does not touch the control array between the step and the render call. When the
  three ids are distinct they are three entries, holding the assigned values.
\<close>

theorem C4_only_owned_ctrl_entries_written:
  assumes "loop_body api cfg s = Inr s'"
  shows "\<exists>s2 s3 d d' prints hz fj vals.
     and_then (diagnostics api s) plan_update = Inr s2 \<and>
     control cfg s2 = Inr s3 \<and>
     (\<forall>e \<in> set prints. is_print e) \<and>
     hz \<in> {gripper_z_low, gripper_z_high} \<and>
     fj \<in> {gripper_open, gripper_closed} \<and>
     length (gripper_jaw_ids cfg) = 2 \<and>
     trace s' = trace s @ prints @
       [Ctrl_write [gripper_z_id cfg] [hz], Ctrl_write (gripper_jaw_ids cfg) fj,
        Sim_step, Qfrc_write (ref_joint_vel_indexes cfg) vals, Render] \<and>
     length (ctrl (sim_data s3)) = length (ctrl (sim_data s)) \<and>
     (\<forall>i. i \<noteq> gripper_z_id cfg \<longrightarrow> i \<notin> set (gripper_jaw_ids cfg) \<longrightarrow>
          ctrl (sim_data s3) ! i = ctrl (sim_data s) ! i) \<and>
     (distinct (gripper_z_id cfg # gripper_jaw_ids cfg) \<longrightarrow>
        card (insert (gripper_z_id cfg) (set (gripper_jaw_ids cfg))) = 3 \<and>
        ctrl (sim_data s3) ! gripper_z_id cfg = hz \<and>
        map (\<lambda>i. ctrl (sim_data s3) ! i) (gripper_jaw_ids cfg) = fj) \<and>
     sim_step api (sim_data s3) = Inr d \<and>
     ctrl d' = ctrl d \<and>
     viewer_render api d' = Inr (sim_data s')"
proof -
  from loop_body_phases[OF assms] obtain s2 s3 d where
    p: "and_then (diagnostics api s) plan_update = Inr s2" and
    c: "control cfg s2 = Inr s3" and
    d: "sim_step api (sim_data s3) = Inr d" and
    r: "viewer_render api (d\<lparr>qfrc_applied := assign_each (qfrc_applied d) (ref_joint_vel_indexes cfg)
                    (map (\<lambda>i. qfrc_bias d ! i) (ref_joint_vel_indexes cfg))\<rparr>) = Inr (sim_data s')" and
    t: "trace s' = trace s3 @ [Sim_step,
        Qfrc_write (ref_joint_vel_indexes cfg) (map (\<lambda>i. qfrc_bias d ! i) (ref_joint_vel_indexes cfg)),
        Render]"
    by blast
  from plan_phase_Inr[OF p] obtain prints where
    pr: "\<forall>e \<in> set prints. is_print e" and t2: "trace s2 = trace s @ prints" and
    d2: "sim_data s2 = sim_data s"
    by blast
  from control_ctrl[OF c] obtain j0 j1 where
    j: "gripper_jaw_ids cfg = [j0, j1]" and
    rg: "gripper_z_id cfg < length (ctrl (sim_data s2))"
       "j0 < length (ctrl (sim_data s2))" "j1 < length (ctrl (sim_data s2))" and
    u: "ctrl (sim_data s3) = (ctrl (sim_data s2))
             [gripper_z_id cfg := height_setpoint (gripper_z_is_low s2),
              j0 := finger_setpoint (gripper_is_closed s2) ! 0,
              j1 := finger_setpoint (gripper_is_closed s2) ! 1]" and
    t3: "trace s3 = trace s2 @
             [Ctrl_write [gripper_z_id cfg] [height_setpoint (gripper_z_is_low s2)],
              Ctrl_write [j0, j1] (finger_setpoint (gripper_is_closed s2))]"
    by blast
  let ?hz = "height_setpoint (gripper_z_is_low s2)"
  let ?fj = "finger_setpoint (gripper_is_closed s2)"
  have hz: "?hz \<in> {gripper_z_low, gripper_z_high}"
    by (simp add: height_setpoint_def)
  have fj: "?fj \<in> {gripper_open, gripper_closed}"
    by (simp add: finger_setpoint_def)
  have f: "?fj = [?fj ! 0, ?fj ! 1]"
    by (simp add: finger_setpoint_def gripper_closed_def gripper_open_def)
  have len: "length (gripper_jaw_ids cfg) = 2" using j by simp
  from t t3 t2 j have tr: "trace s' = trace s @ prints @
       [Ctrl_write [gripper_z_id cfg] [?hz], Ctrl_write (gripper_jaw_ids cfg) ?fj,
        Sim_step,
        Qfrc_write (ref_joint_vel_indexes cfg)
          (map (\<lambda>i. qfrc_bias d ! i) (ref_joint_vel_indexes cfg)), Render]"
    by simp
  have l: "length (ctrl (sim_data s3)) = length (ctrl (sim_data s))"
    using u d2 by simp
  have fr: "\<forall>i. i \<noteq> gripper_z_id cfg \<longrightarrow> i \<notin> set (gripper_jaw_ids cfg) \<longrightarrow>
          ctrl (sim_data s3) ! i = ctrl (sim_data s) ! i"
    using u d2 j by simp
  have own: "distinct (gripper_z_id cfg # gripper_jaw_ids cfg) \<longrightarrow>
        card (insert (gripper_z_id cfg) (set (gripper_jaw_ids cfg))) = 3 \<and>
        ctrl (sim_data s3) ! gripper_z_id cfg = ?hz \<and>
        map (\<lambda>i. ctrl (sim_data s3) ! i) (gripper_jaw_ids cfg) = ?fj"
  proof
    assume dist: "distinct (gripper_z_id cfg # gripper_jaw_ids cfg)"
    with j have "card (insert (gripper_z_id cfg) (set (gripper_jaw_ids cfg))) = 3" by simp
    moreover from dist j rg u have "ctrl (sim_data s3) ! gripper_z_id cfg = ?hz" by simp
    moreover from dist j rg u have "map (\<lambda>i. ctrl (sim_data s3) ! i) (gripper_jaw_ids cfg) =
        [?fj ! 0, ?fj ! 1]" by simp
    ultimately show "card (insert (gripper_z_id cfg) (set (gripper_jaw_ids cfg))) = 3 \<and>
        ctrl (sim_data s3) ! gripper_z_id cfg = ?hz \<and>
        map (\<lambda>i. ctrl (sim_data s3) ! i) (gripper_jaw_ids cfg) = ?fj"
      using f by simp
  qed
  have cd: "ctrl (d\<lparr>qfrc_applied := assign_each (qfrc_applied d) (ref_joint_vel_indexes cfg)
                    (map (\<lambda>i. qfrc_bias d ! i) (ref_joint_vel_indexes cfg))\<rparr>) = ctrl d"
    by simp
  from p c pr hz fj len tr l fr own d cd r show ?thesis by blast
qed


theorem C4_witness:
  "loop_body example_api example_cfg example_state = Inr example_next \<and>
   (\<exists>s2 s3 d d' prints hz fj vals.
     and_then (diagnostics example_api example_state) plan_update = Inr s2 \<and>
     control example_cfg s2 = Inr s3 \<and>
     (\<forall>e \<in> set prints. is_print e) \<and>
     hz \<in> {gripper_z_low, gripper_z_high} \<and>
     fj \<in> {gripper_open, gripper_closed} \<and>
     length (gripper_jaw_ids example_cfg) = 2 \<and>
     trace example_next = trace example_state @ prints @
       [Ctrl_write [gripper_z_id example_cfg] [hz], Ctrl_write (gripper_jaw_ids example_cfg) fj,
        Sim_step, Qfrc_write (ref_joint_vel_indexes example_cfg) vals, Render] \<and>
     length (ctrl (sim_data s3)) = length (ctrl (sim_data example_state)) \<and>
     (\<forall>i. i \<noteq> gripper_z_id example_cfg \<longrightarrow> i \<notin> set (gripper_jaw_ids example_cfg) \<longrightarrow>
          ctrl (sim_data s3) ! i = ctrl (sim_data example_state) ! i) \<and>
     (distinct (gripper_z_id example_cfg # gripper_jaw_ids example_cfg) \<longrightarrow>
        card (insert (gripper_z_id example_cfg) (set (gripper_jaw_ids example_cfg))) = 3 \<and>
        ctrl (sim_data s3) ! gripper_z_id example_cfg = hz \<and>
        map (\<lambda>i. ctrl (sim_data s3) ! i) (gripper_jaw_ids example_cfg) = fj) \<and>
     sim_step example_api (sim_data s3) = Inr d \<and>
     ctrl d' = ctrl d \<and>
     viewer_render example_api d' = Inr (sim_data example_next))"
  by (rule conjI[OF example_iteration
        C4_only_owned_ctrl_entries_written[OF example_iteration]])

text \<open>
  C5. In every iteration that completes after a successful setup, the force copy follows
  the engine step and precedes the render call: the data handed to the viewer are the
  data the step returned with one change, the applied-force entry at the velocity address
  of \<open>gripper_z_joint\<close> set to the bias-force entry at that address. No other
  applied-force entry differs.
\<close>

theorem C5_gravity_compensation_copy:
  assumes "setup_phase api = Inr cfg" and "loop_body api cfg s = Inr s'"
  shows "\<exists>a s2 s3 d d'.
     get_joint_qvel_addr api ''gripper_z_joint'' = Inr a \<and>
     ref_joint_vel_indexes cfg = [a] \<and>
     and_then (diagnostics api s) plan_update = Inr s2 \<and>
     control cfg s2 = Inr s3 \<and>
     sim_step api (sim_data s3) = Inr d \<and>
     a < length (qfrc_applied d) \<and> a < length (qfrc_bias d) \<and>
     d' = d\<lparr>qfrc_applied := (qfrc_applied d)[a := qfrc_bias d ! a]\<rparr> \<and>
     qfrc_applied d' ! a = qfrc_bias d ! a \<and>
     length (qfrc_applied d') = length (qfrc_applied d) \<and>
     (\<forall>i. i \<noteq> a \<longrightarrow> qfrc_applied d' ! i = qfrc_applied d ! i) \<and>
     viewer_render api d' = Inr (sim_data s') \<and>
     trace s' = trace s3 @ [Sim_step, Qfrc_write [a] [qfrc_bias d ! a], Render]"
proof -
  from setup_phase_Inr[OF assms(1)] obtain a where
    a: "get_joint_qvel_addr api ''gripper_z_joint'' = Inr a" and
    ra: "ref_joint_vel_indexes cfg = [a]"
    by blast
  from loop_body_phases[OF assms(2)] obtain s2 s3 d where
    p: "and_then (diagnostics api s) plan_update = Inr s2" and
    c: "control cfg s2 = Inr s3" and
    d: "sim_step api (sim_data s3) = Inr d" and
    rg: "\<forall>i \<in> set (ref_joint_vel_indexes cfg). i < length (qfrc_bias d) \<and> i < length (qfrc_applied d)" and
    r: "viewer_render api (d\<lparr>qfrc_applied := assign_each (qfrc_applied d) (ref_joint_vel_indexes cfg)
                    (map (\<lambda>i. qfrc_bias d ! i) (ref_joint_vel_indexes cfg))\<rparr>) = Inr (sim_data s')" and
    t: "trace s' = trace s3 @ [Sim_step,
        Qfrc_write (ref_joint_vel_indexes cfg) (map (\<lambda>i. qfrc_bias d ! i) (ref_joint_vel_indexes cfg)),
        Render]"
    by blast
  let ?d' = "d\<lparr>qfrc_applied := (qfrc_applied d)[a := qfrc_bias d ! a]\<rparr>"
  from rg ra have l: "a < length (qfrc_applied d)" "a < length (qfrc_bias d)" by simp_all
  from r ra have r': "viewer_render api ?d' = Inr (sim_data s')" by simp
  from t ra have t': "trace s' = trace s3 @ [Sim_step, Qfrc_write [a] [qfrc_bias d ! a], Render]"
    by simp
  from l have v: "qfrc_applied ?d' ! a = qfrc_bias d ! a"
    "length (qfrc_applied ?d') = length (qfrc_applied d)"
    "\<forall>i. i \<noteq> a \<longrightarrow> qfrc_applied ?d' ! i = qfrc_applied d ! i"
    by simp_all
  from a ra p c d l v r' t' show ?thesis by blast
qed

theorem C5_witness:
  "setup_phase example_api = Inr example_cfg \<and>
   loop_body example_api example_cfg example_state = Inr example_next \<and>
   (\<exists>a s2 s3 d d'.
     get_joint_qvel_addr example_api ''gripper_z_joint'' = Inr a \<and>
     ref_joint_vel_indexes example_cfg = [a] \<and>
     and_then (diagnostics example_api example_state) plan_update = Inr s2 \<and>
     control example_cfg s2 = Inr s3 \<and>
     sim_step example_api (sim_data s3) = Inr d \<and>
     a < length (qfrc_applied d) \<and> a < length (qfrc_bias d) \<and>
     d' = d\<lparr>qfrc_applied := (qfrc_applied d)[a := qfrc_bias d ! a]\<rparr> \<and>
     qfrc_applied d' ! a = qfrc_bias d ! a \<and>
     length (qfrc_applied d') = length (qfrc_applied d) \<and>
     (\<forall>i. i \<noteq> a \<longrightarrow> qfrc_applied d' ! i = qfrc_applied d ! i) \<and>
     viewer_render example_api d' = Inr (sim_data example_next) \<and>
     trace example_next = trace s3 @ [Sim_step, Qfrc_write [a] [qfrc_bias d ! a], Render])"
  by (intro conjI example_setup example_iteration
        C5_gravity_compensation_copy[OF example_setup example_iteration])

text \<open>
  C9. In an iteration whose counter is a multiple of 100 the diagnostics block prints the
  counter and then walks the first \<open>ncon\<close> contacts in the engine's order. For each of
  them both geom names are looked up; the contact is skipped exactly when both names are
  \<open>floor\<close>, and otherwise its two names, its object id, its friction and the first three
  entries of its frame are printed, in this order. Nothing else is changed.
\<close>

theorem C9_contact_diagnostics:
  assumes "step s mod 100 = 0" and "diagnostics api s = Inr s1"
  shows "\<exists>names.
     list_all2 (\<lambda>c (n1, n2). geom_id2name api (geom1 c) = Inr n1 \<and>
                              geom_id2name api (geom2 c) = Inr n2)
       (take (ncon (sim_data s)) (contact (sim_data s))) names \<and>
     s1 = s\<lparr>trace := trace s @ Print_step (step s) #
            concat (map2 (\<lambda>c (n1, n2).
              if n1 = Some ''floor'' \<and> n2 = Some ''floor'' then []
              else [Print_geoms n1 n2, Print_contact_id (py_id api c),
                    Print_friction (friction c), Print_normal (take 3 (frame c))])
              (take (ncon (sim_data s)) (contact (sim_data s))) names)\<rparr>"
proof -
  from assms obtain out where
    o: "print_contacts api (take (ncon (sim_data s)) (contact (sim_data s)))
          (trace s @ [Print_step (step s)]) = Inr out"
    and s1: "s1 = s\<lparr>trace := out\<rparr>"
    by (auto simp: diagnostics_def split: sum.splits)
  from print_contacts_Inr[OF o] s1 show ?thesis by auto
qed

lemma example_step: "step example_state mod 100 = 0"
  by (simp add: example_state_def init_state_def)

theorem C9_witness:
  "step example_state mod 100 = 0 \<and>
   diagnostics example_api example_state =
     Inr (example_state
       \<lparr>trace := [Print_step 0, Print_geoms (Some ''floor'') (Some ''box_g0''),
                  Print_contact_id 0, Print_friction [1, 1, 0.005, 0.0001, 0.0001],
                  Print_normal [0, 0, 1]]\<rparr>) \<and>
   (\<exists>names.
     list_all2 (\<lambda>c (n1, n2). geom_id2name example_api (geom1 c) = Inr n1 \<and>
                              geom_id2name example_api (geom2 c) = Inr n2)
       (take (ncon (sim_data example_state)) (contact (sim_data example_state))) names \<and>
     example_state
       \<lparr>trace := [Print_step 0, Print_geoms (Some ''floor'') (Some ''box_g0''),
                  Print_contact_id 0, Print_friction [1, 1, 0.005, 0.0001, 0.0001],
                  Print_normal [0, 0, 1]]\<rparr> =
     example_state\<lparr>trace := trace example_state @ Print_step (step example_state) #
            concat (map2 (\<lambda>c (n1, n2).
              if n1 = Some ''floor'' \<and> n2 = Some ''floor'' then []
              else [Print_geoms n1 n2, Print_contact_id (py_id example_api c),
                    Print_friction (friction c), Print_normal (take 3 (frame c))])
              (take (ncon (sim_data example_state)) (contact (sim_data example_state))) names)\<rparr>)"
  by (intro conjI example_step example_diagnostics
        C9_contact_diagnostics[OF example_step example_diagnostics])


lemma and_then_assoc:
  "and_then (and_then r f) g = and_then r (\<lambda>x. and_then (f x) g)"
  by (cases r) (simp_all add: and_then_def)

lemma loop_body_plan_phase:
  "loop_body api cfg s =
     and_then (and_then (diagnostics api s) plan_update) (\<lambda>s2.
     and_then (control cfg s2) (\<lambda>s3.
     and_then (engine_step api s3) (\<lambda>s4.
     and_then (gravity_compensation cfg s4) (\<lambda>s5.
     render_and_count api s5))))"
  by (simp add: loop_body_def and_then_assoc)

lemma plan_update_step_0:
  "step s = 0 \<Longrightarrow> plan_update s =
     Inr (s\<lparr>gripper_z_is_low := False, gripper_is_closed := False,
            trace := trace s @ [Print_plan False False]\<rparr>)"
  by (simp add: plan_update_def plan_lookup_0 T_def)

lemma diagnostics_flags:
  "diagnostics api (s\<lparr>gripper_z_is_low := bz, gripper_is_closed := bc\<rparr>) =
     (case diagnostics api s of
        Inl err \<Rightarrow> Inl err
      | Inr s1 \<Rightarrow> Inr (s1\<lparr>gripper_z_is_low := bz, gripper_is_closed := bc\<rparr>))"
  by (simp add: diagnostics_def split: sum.splits)

lemma diagnostics_step: "diagnostics api s = Inr s1 \<Longrightarrow> step s1 = step s"
  by (drule diagnostics_Inr) auto

lemma plan_phase_flags_step_0:
  assumes "step s = 0"
  shows "and_then (diagnostics api (s\<lparr>gripper_z_is_low := bz, gripper_is_closed := bc\<rparr>)) plan_update =
         and_then (diagnostics api s) plan_update"
proof (cases "diagnostics api s")
  case (Inl err)
  then show ?thesis by (simp add: diagnostics_flags and_then_def)
next
  case (Inr s1)
  with assms have "step s1 = 0" by (simp add: diagnostics_step)
  with Inr show ?thesis
    by (simp add: diagnostics_flags and_then_def plan_update_step_0)
qed

lemma plan_phase_step_0:
  assumes "step s = 0" and "and_then (diagnostics api s) plan_update = Inr s2"
  shows "active_plan s2 = (False, False)"
proof -
  from assms(2) obtain s1 where d: "diagnostics api s = Inr s1" and p: "plan_update s1 = Inr s2"
    by (auto simp: and_then_Inr_iff)
  from d assms(1) have "step s1 = 0" by (simp add: diagnostics_step)
  from plan_update_step_0[OF this] p show ?thesis by (auto simp: active_plan_def)
qed

text \<open>
  C10. The values the two flags are given before the loop are never read. Whatever they
  are, the first iteration and every run of one or more iterations give the same result
  as with the values of the script. At counter zero the plan block replaces both flags by
  the first plan entry, \<open>(False, False)\<close>, and only prints precede the first writes to the
  control array, which are the high height setpoint and the open finger setpoints.
\<close>

theorem C10_initial_flags_never_read:
  "loop_body api cfg ((init_state api d)\<lparr>gripper_z_is_low := bz, gripper_is_closed := bc\<rparr>) =
     loop_body api cfg (init_state api d) \<and>
   run_loop api cfg (Suc n) ((init_state api d)\<lparr>gripper_z_is_low := bz, gripper_is_closed := bc\<rparr>) =
     run_loop api cfg (Suc n) (init_state api d) \<and>
   (\<forall>s2. and_then (diagnostics api
               ((init_state api d)\<lparr>gripper_z_is_low := bz, gripper_is_closed := bc\<rparr>))
             plan_update = Inr s2 \<longrightarrow>
      seq ! 0 = (False, False) \<and>
      active_plan s2 = (False, False) \<and>
      (\<forall>e \<in> set (trace s2). is_print e) \<and>
      (\<forall>s3. control cfg s2 = Inr s3 \<longrightarrow>
         trace s3 = trace s2 @ [Ctrl_write [gripper_z_id cfg] [gripper_z_high],
                                Ctrl_write (gripper_jaw_ids cfg) gripper_open]))"
proof -
  let ?s0 = "init_state api d"
  let ?s0' = "?s0\<lparr>gripper_z_is_low := bz, gripper_is_closed := bc\<rparr>"
  have st: "step ?s0 = 0" by (simp add: init_state_def)
  have ph: "and_then (diagnostics api ?s0') plan_update = and_then (diagnostics api ?s0) plan_update"
    by (rule plan_phase_flags_step_0[OF st])
  have lb: "loop_body api cfg ?s0' = loop_body api cfg ?s0"
    by (simp only: loop_body_plan_phase ph)
  have rl: "run_loop api cfg (Suc n) ?s0' = run_loop api cfg (Suc n) ?s0"
    by (simp only: run_loop.simps lb)
  have fst: "\<forall>s2. and_then (diagnostics api ?s0') plan_update = Inr s2 \<longrightarrow>
      seq ! 0 = (False, False) \<and>
      active_plan s2 = (False, False) \<and>
      (\<forall>e \<in> set (trace s2). is_print e) \<and>
      (\<forall>s3. control cfg s2 = Inr s3 \<longrightarrow>
         trace s3 = trace s2 @ [Ctrl_write [gripper_z_id cfg] [gripper_z_high],
                                Ctrl_write (gripper_jaw_ids cfg) gripper_open])"
  proof (intro allI impI)
    fix s2
    assume a: "and_then (diagnostics api ?s0') plan_update = Inr s2"
    then have a': "and_then (diagnostics api ?s0) plan_update = Inr s2" by (simp only: ph)
    from plan_phase_step_0[OF st a'] have ap: "active_plan s2 = (False, False)" .
    from plan_phase_Inr[OF a'] have pr: "\<forall>e \<in> set (trace s2). is_print e"
      by (auto simp: init_state_def)
    have c: "\<forall>s3. control cfg s2 = Inr s3 \<longrightarrow>
         trace s3 = trace s2 @ [Ctrl_write [gripper_z_id cfg] [gripper_z_high],
                                Ctrl_write (gripper_jaw_ids cfg) gripper_open]"
    proof (intro allI impI)
      fix s3
      assume "control cfg s2 = Inr s3"
      from control_Inr[OF this] ap show "trace s3 = trace s2 @
          [Ctrl_write [gripper_z_id cfg] [gripper_z_high],
           Ctrl_write (gripper_jaw_ids cfg) gripper_open]"
        by (simp add: active_plan_def height_setpoint_def finger_setpoint_def)
    qed
    show "seq ! 0 = (False, False) \<and>
      active_plan s2 = (False, False) \<and>
      (\<forall>e \<in> set (trace s2). is_print e) \<and>
      (\<forall>s3. control cfg s2 = Inr s3 \<longrightarrow>
         trace s3 = trace s2 @ [Ctrl_write [gripper_z_id cfg] [gripper_z_high],
                                Ctrl_write (gripper_jaw_ids cfg) gripper_open])"
      using ap pr c by (simp add: seq_def)
  qed
  from lb rl fst show ?thesis by blast
qed


lemma and_then_rel:
  assumes "rel_sum (=) R r1 r2" and "\<And>x y. R x y \<Longrightarrow> rel_sum (=) Q (f x) (g y)"
  shows "rel_sum (=) Q (and_then r1 f) (and_then r2 g)"
  using assms by (cases r1; cases r2) (simp_all add: and_then_def)

lemma print_contacts_forget:
  "map forget_step o1 = map forget_step o2 \<Longrightarrow>
   rel_sum (=) (\<lambda>a b. map forget_step a = map forget_step b)
     (print_contacts api cs o1) (print_contacts api cs o2)"
proof (induction cs arbitrary: o1 o2)
  case Nil
  then show ?case by simp
next
  case (Cons c cs)
  show ?case
  proof (cases "geom_id2name api (geom1 c)")
    case (Inl err)
    then show ?thesis by simp
  next
    case n1: (Inr n1)
    show ?thesis
    proof (cases "geom_id2name api (geom2 c)")
      case (Inl err)
      with n1 show ?thesis by simp
    next
      case n2: (Inr n2)
      show ?thesis
      proof (cases "n1 = Some ''floor'' \<and> n2 = Some ''floor''")
        case True
        with n1 n2 Cons.IH[OF Cons.prems] show ?thesis by simp
      next
        case False
        let ?evs = "[Print_geoms n1 n2, Print_contact_id (py_id api c),
                     Print_friction (friction c), Print_normal (take 3 (frame c))]"
        from Cons.prems have "map forget_step (o1 @ ?evs) = map forget_step (o2 @ ?evs)" by simp
        from Cons.IH[OF this] n1 n2 False show ?thesis by auto
      qed
    qed
  qed
qed

lemma diagnostics_agree:
  assumes "agree s t"
  shows "rel_sum (=) agree (diagnostics api s) (diagnostics api t)"
proof (cases "step s mod 100 = 0")
  case True
  with assms have t: "step t mod 100 = 0" by (simp add: agree_def)
  from assms have d: "sim_data s = sim_data t"
    and m: "map forget_step (trace s @ [Print_step (step s)]) =
            map forget_step (trace t @ [Print_step (step t)])"
    by (simp_all add: agree_def observation_def)
  from print_contacts_forget[OF m, of api "take (ncon (sim_data s)) (contact (sim_data s))"]
  show ?thesis
    using True t d assms
    by (cases "print_contacts api (take (ncon (sim_data s)) (contact (sim_data s)))
                 (trace s @ [Print_step (step s)])";
        cases "print_contacts api (take (ncon (sim_data t)) (contact (sim_data t)))
                 (trace t @ [Print_step (step t)])")
       (simp_all add: diagnostics_def agree_def observation_def)
next
  case False
  with assms have "step t mod 100 \<noteq> 0" by (simp add: agree_def)
  with False assms show ?thesis by (simp add: diagnostics_def)
qed

lemma plan_update_agree:
  assumes "agree s t"
  shows "rel_sum (=) agree (plan_update s) (plan_update t)"
proof (cases "step s mod T = 0")
  case True
  with assms have t: "step t mod T = 0" and p: "plan_lookup (step s) = plan_lookup (step t)"
    by (simp_all add: agree_def)
  show ?thesis
    using True t p assms
    by (cases "plan_lookup (step t)") (simp_all add: plan_update_def agree_def observation_def)
next
  case False
  with assms have "step t mod T \<noteq> 0" by (simp add: agree_def)
  with False assms show ?thesis by (simp add: plan_update_def)
qed

lemma control_agree:
  assumes "agree s t"
  shows "rel_sum (=) agree (control cfg s) (control cfg t)"
  using assms
  by (auto simp: control_def Let_def agree_def observation_def split: sum.splits)

lemma engine_step_agree:
  assumes "agree s t"
  shows "rel_sum (=) agree (engine_step api s) (engine_step api t)"
  using assms
  by (auto simp: engine_step_def agree_def observation_def split: sum.splits)

lemma gravity_compensation_agree:
  assumes "agree s t"
  shows "rel_sum (=) agree (gravity_compensation cfg s) (gravity_compensation cfg t)"
  using assms
  by (auto simp: gravity_compensation_def agree_def observation_def split: sum.splits)

lemma render_and_count_agree:
  assumes "agree s t"
  shows "rel_sum (=) (\<lambda>a b. observation a = observation b)
           (render_and_count api s) (render_and_count api t)"
  using assms
  by (auto simp: render_and_count_def agree_def observation_def split: sum.splits)

lemma loop_body_agree:
  assumes "agree s t"
  shows "map_sum id observation (loop_body api cfg s) = map_sum id observation (loop_body api cfg t)"
proof -
  have "rel_sum (=) (\<lambda>a b. observation a = observation b)
          (loop_body api cfg s) (loop_body api cfg t)"
    unfolding loop_body_def
    by (intro and_then_rel[where R = agree] diagnostics_agree plan_update_agree control_agree
          engine_step_agree gravity_compensation_agree render_and_count_agree assms)
  then show ?thesis
    by (cases "loop_body api cfg s"; cases "loop_body api cfg t") simp_all
qed

lemma loop_body_step:
  assumes "loop_body api cfg s = Inr s'"
  shows "step s' = step s + 1"
proof -
  from loop_body_phases[OF assms] obtain s2 s3 where
    p: "and_then (diagnostics api s) plan_update = Inr s2" and
    c: "control cfg s2 = Inr s3" and s': "step s' = step s3 + 1" by blast
  from plan_phase_Inr[OF p] have "step s2 = step s" by blast
  moreover from control_Inr[OF c] have "step s3 = step s2" by simp
  ultimately show ?thesis using s' by simp
qed

text \<open>
  C6. The counter is zero on entry to the loop and a completed iteration adds one to it.
  The diagnostics block is skipped exactly when the counter is not a multiple of 100 and
  the plan block exactly when it is not a multiple of 500. Beyond these two tests, the
  printed counter and the plan lookup, the counter is not read: two states that differ
  only in the counter, agree on both tests and on the looked-up plan entry give the same
  outcome of the iteration, that is, the same exception or the same engine data, flags and
  effects up to the value in the counter print.
\<close>

theorem C6_step_counter_use:
  "step (init_state api d) = 0 \<and>
   (\<forall>s'. loop_body api cfg s = Inr s' \<longrightarrow> step s' = step s + 1) \<and>
   (step s mod 100 \<noteq> 0 \<longrightarrow> diagnostics api s = Inr s) \<and>
   (step s mod 100 = 0 \<longrightarrow>
      (\<forall>s1. diagnostics api s = Inr s1 \<longrightarrow>
         (\<exists>evs. trace s1 = trace s @ Print_step (step s) # evs))) \<and>
   (step s mod 500 \<noteq> 0 \<longrightarrow> plan_update s = Inr s) \<and>
   (step s mod 500 = 0 \<longrightarrow>
      plan_update s =
        (case plan_lookup (step s) of
           Inl err \<Rightarrow> Inl err
         | Inr plan \<Rightarrow>
             Inr (s\<lparr>gripper_z_is_low := fst plan, gripper_is_closed := snd plan,
                    trace := trace s @ [Print_plan (fst plan) (snd plan)]\<rparr>))) \<and>
   ((n mod 100 = 0 \<longleftrightarrow> step s mod 100 = 0) \<longrightarrow>
    (n mod 500 = 0 \<longleftrightarrow> step s mod 500 = 0) \<longrightarrow>
    (step s mod 500 = 0 \<longrightarrow> plan_lookup n = plan_lookup (step s)) \<longrightarrow>
      map_sum id observation (loop_body api cfg (s\<lparr>step := n\<rparr>)) =
      map_sum id observation (loop_body api cfg s))"
proof -
  have 1: "step (init_state api d) = 0" by (simp add: init_state_def)
  have 2: "\<forall>s'. loop_body api cfg s = Inr s' \<longrightarrow> step s' = step s + 1"
    by (simp add: loop_body_step)
  have 3: "step s mod 100 \<noteq> 0 \<longrightarrow> diagnostics api s = Inr s"
    by (simp add: diagnostics_def)
  have 4: "step s mod 100 = 0 \<longrightarrow>
      (\<forall>s1. diagnostics api s = Inr s1 \<longrightarrow>
         (\<exists>evs. trace s1 = trace s @ Print_step (step s) # evs))"
  proof (intro impI allI)
    fix s1
    assume m: "step s mod 100 = 0" and d: "diagnostics api s = Inr s1"
    then obtain out where
      o: "print_contacts api (take (ncon (sim_data s)) (contact (sim_data s)))
            (trace s @ [Print_step (step s)]) = Inr out"
      and s1: "s1 = s\<lparr>trace := out\<rparr>"
      by (auto simp: diagnostics_def split: sum.splits)
    from print_contacts_trace[OF o] s1
    show "\<exists>evs. trace s1 = trace s @ Print_step (step s) # evs" by auto
  qed
  have 5: "step s mod 500 \<noteq> 0 \<longrightarrow> plan_update s = Inr s"
    by (simp add: plan_update_def T_def)
  have 6: "step s mod 500 = 0 \<longrightarrow>
      plan_update s =
        (case plan_lookup (step s) of
           Inl err \<Rightarrow> Inl err
         | Inr plan \<Rightarrow>
             Inr (s\<lparr>gripper_z_is_low := fst plan, gripper_is_closed := snd plan,
                    trace := trace s @ [Print_plan (fst plan) (snd plan)]\<rparr>))"
    by (simp add: plan_update_def T_def)
  have 7: "(n mod 100 = 0 \<longleftrightarrow> step s mod 100 = 0) \<longrightarrow>
    (n mod 500 = 0 \<longleftrightarrow> step s mod 500 = 0) \<longrightarrow>
    (step s mod 500 = 0 \<longrightarrow> plan_lookup n = plan_lookup (step s)) \<longrightarrow>
      map_sum id observation (loop_body api cfg (s\<lparr>step := n\<rparr>)) =
      map_sum id observation (loop_body api cfg s)"
  proof (intro impI)
    assume "(n mod 100 = 0) = (step s mod 100 = 0)" "(n mod 500 = 0) = (step s mod 500 = 0)"
      "step s mod 500 = 0 \<longrightarrow> plan_lookup n = plan_lookup (step s)"
    then have "agree (s\<lparr>step := n\<rparr>) s"
      by (auto simp: agree_def observation_def T_def)
    then show "map_sum id observation (loop_body api cfg (s\<lparr>step := n\<rparr>)) =
      map_sum id observation (loop_body api cfg s)"
      by (rule loop_body_agree)
  qed
  from 1 2 3 4 5 6 7 show ?thesis by blast
qed


lemma bit_length_numeral [simp]:
  "bit_length (Suc 0) = Suc 0"
  "bit_length (numeral Num.One) = Suc 0"
  "bit_length (numeral (Num.Bit0 n)) = Suc (bit_length (numeral n))"
  "bit_length (numeral (Num.Bit1 n)) = Suc (bit_length (numeral n))"
  by (subst bit_length.simps, simp)+

lemmas truediv_defs = py_int_truediv_def float_quotient_def float_finite_def float_trunc_def
  floor_log2_def round_half_even_def Let_def

lemma plan_lookup_2000: "plan_lookup 2000 = Inr (False, False)"
  by (simp add: plan_lookup_def T_def truediv_defs py_getitem_def seq_def)

theorem C10_witness:
  "loop_body example_api example_cfg
     (example_state\<lparr>gripper_z_is_low := True, gripper_is_closed := False\<rparr>) = Inr example_next \<and>
   (\<exists>s2 s3.
      and_then (diagnostics example_api
                 (example_state\<lparr>gripper_z_is_low := True, gripper_is_closed := False\<rparr>))
        plan_update = Inr s2 \<and>
      control example_cfg s2 = Inr s3 \<and>
      active_plan s2 = (False, False) \<and>
      trace s3 = trace s2 @ [Ctrl_write [gripper_z_id example_cfg] [gripper_z_high],
                             Ctrl_write (gripper_jaw_ids example_cfg) gripper_open])"
proof -
  note c10 = C10_initial_flags_never_read[where api = example_api and cfg = example_cfg
      and d = example_data and bz = True and bc = False and n = 0,
      folded example_state_def]
  from c10 example_iteration have lb: "loop_body example_api example_cfg
     (example_state\<lparr>gripper_z_is_low := True, gripper_is_closed := False\<rparr>) = Inr example_next"
    by simp
  from loop_body_phases[OF lb] obtain s2 s3 where
    p: "and_then (diagnostics example_api
                 (example_state\<lparr>gripper_z_is_low := True, gripper_is_closed := False\<rparr>))
        plan_update = Inr s2" and c: "control example_cfg s2 = Inr s3"
    by blast
  from c10 p c have "active_plan s2 = (False, False) \<and>
      trace s3 = trace s2 @ [Ctrl_write [gripper_z_id example_cfg] [gripper_z_high],
                             Ctrl_write (gripper_jaw_ids example_cfg) gripper_open]"
    by blast
  with lb p c show ?thesis by blast
qed

theorem C6_witness:
  "step example_state = 0 \<and>
   step example_next = step example_state + 1 \<and>
   plan_lookup 2000 = plan_lookup (step example_state) \<and>
   map_sum id observation (loop_body example_api example_cfg (example_state\<lparr>step := 2000\<rparr>)) =
     Inr (observation example_next)"
proof -
  note c6 = C6_step_counter_use[where api = example_api and d = example_data and cfg = example_cfg
      and s = example_state and n = 2000,
      folded example_state_def]
  have st: "step example_state = 0" using c6 by blast
  have pl: "plan_lookup 2000 = plan_lookup (step example_state)"
    by (simp add: st plan_lookup_2000 plan_lookup_0)
  from c6 example_iteration have nx: "step example_next = step example_state + 1" by blast
  from c6 st pl have "map_sum id observation
        (loop_body example_api example_cfg (example_state\<lparr>step := 2000\<rparr>)) =
      map_sum id observation (loop_body example_api example_cfg example_state)"
    by simp
  with example_iteration st nx pl show ?thesis by simp
qed


lemma comprehension_append_fail:
  "comprehension f good = Inr ids \<Longrightarrow> f bad = Inl e \<Longrightarrow>
   comprehension f (good @ bad # rest) = Inl e"
  by (induction good arbitrary: ids) (auto split: sum.splits)

lemma print_contacts_append:
  "print_contacts api (xs @ ys) out = and_then (print_contacts api xs out) (print_contacts api ys)"
proof (induction xs arbitrary: out)
  case Nil
  show ?case by (simp add: and_then_def)
next
  case (Cons c cs)
  show ?case by (simp add: Cons.IH and_then_def split: sum.splits)
qed

lemma run_loop_add:
  "run_loop api cfg (k + m) s = and_then (run_loop api cfg k s) (run_loop api cfg m)"
proof (induction k arbitrary: s)
  case 0
  show ?case by (simp add: and_then_def)
next
  case (Suc k)
  show ?case by (simp add: Suc.IH and_then_def split: sum.splits)
qed

lemma loop_body_Inl_iff:
  "loop_body api cfg s = Inl e \<longleftrightarrow>
     diagnostics api s = Inl e \<or>
     (\<exists>s1. diagnostics api s = Inr s1 \<and>
        (plan_update s1 = Inl e \<or>
        (\<exists>s2. plan_update s1 = Inr s2 \<and>
           (control cfg s2 = Inl e \<or>
           (\<exists>s3. control cfg s2 = Inr s3 \<and>
              (engine_step api s3 = Inl e \<or>
              (\<exists>s4. engine_step api s3 = Inr s4 \<and>
                 (gravity_compensation cfg s4 = Inl e \<or>
                 (\<exists>s5. gravity_compensation cfg s4 = Inr s5 \<and>
                    render_and_count api s5 = Inl e)))))))))"
  unfolding loop_body_def and_then_Inl_iff by blast

lemma main_setup_fail: "setup_phase api = Inl e \<Longrightarrow> main api d n = Inl e"
  by (simp add: main_def)

text \<open>
  C8. No exception is caught. When the joint lookup raises, or the lookup of the height
  actuator, or the lookup of one of the gripper's actuator names after the earlier ones
  succeeded, the script ends with that exception before the loop. When a geom lookup
  raises in the diagnostics of an iteration, after the lookups for the earlier contacts
  succeeded, the iteration ends with that exception. An iteration ends with an exception
  exactly when one of its six blocks raises it with all earlier blocks completed, and once
  an iteration has ended with an exception no later iteration runs: every longer run has
  the same exception as its result.
\<close>

theorem C8_exceptions_propagate:
  "(get_joint_qvel_addr api ''gripper_z_joint'' = Inl e \<longrightarrow> main api d n = Inl e) \<and>
   (get_joint_qvel_addr api ''gripper_z_joint'' = Inr a \<longrightarrow>
      actuator_name2id api ''gripper_z'' = Inl e \<longrightarrow> main api d n = Inl e) \<and>
   (get_joint_qvel_addr api ''gripper_z_joint'' = Inr a \<longrightarrow>
      actuator_name2id api ''gripper_z'' = Inr z \<longrightarrow>
      gripper_actuators api = good @ bad # rest \<longrightarrow>
      comprehension (actuator_name2id api) good = Inr ids \<longrightarrow>
      actuator_name2id api bad = Inl e \<longrightarrow> main api d n = Inl e) \<and>
   (step s mod 100 = 0 \<longrightarrow>
      take (ncon (sim_data s)) (contact (sim_data s)) = good_cs @ c # rest_cs \<longrightarrow>
      print_contacts api good_cs (trace s @ [Print_step (step s)]) = Inr out \<longrightarrow>
      (geom_id2name api (geom1 c) = Inl e \<or>
       (\<exists>n1. geom_id2name api (geom1 c) = Inr n1 \<and> geom_id2name api (geom2 c) = Inl e)) \<longrightarrow>
      loop_body api cfg s = Inl e) \<and>
   (loop_body api cfg s = Inl e \<longleftrightarrow>
     diagnostics api s = Inl e \<or>
     (\<exists>s1. diagnostics api s = Inr s1 \<and>
        (plan_update s1 = Inl e \<or>
        (\<exists>s2. plan_update s1 = Inr s2 \<and>
           (control cfg s2 = Inl e \<or>
           (\<exists>s3. control cfg s2 = Inr s3 \<and>
              (engine_step api s3 = Inl e \<or>
              (\<exists>s4. engine_step api s3 = Inr s4 \<and>
                 (gravity_compensation cfg s4 = Inl e \<or>
                 (\<exists>s5. gravity_compensation cfg s4 = Inr s5 \<and>
                    render_and_count api s5 = Inl e)))))))))) \<and>
   (run_loop api cfg k s0 = Inr s \<longrightarrow> loop_body api cfg s = Inl e \<longrightarrow>
      run_loop api cfg (k + Suc m) s0 = Inl e) \<and>
   (setup_phase api = Inr cfg \<longrightarrow> run_loop api cfg k (init_state api d) = Inl e \<longrightarrow>
      main api d (k + m) = Inl e)"
proof -
  have 1: "get_joint_qvel_addr api ''gripper_z_joint'' = Inl e \<longrightarrow> main api d n = Inl e"
    by (simp add: main_def setup_phase_def gravity_corrected_def)
  have 2: "get_joint_qvel_addr api ''gripper_z_joint'' = Inr a \<longrightarrow>
      actuator_name2id api ''gripper_z'' = Inl e \<longrightarrow> main api d n = Inl e"
    by (simp add: main_def setup_phase_def gravity_corrected_def)
  have 3: "get_joint_qvel_addr api ''gripper_z_joint'' = Inr a \<longrightarrow>
      actuator_name2id api ''gripper_z'' = Inr z \<longrightarrow>
      gripper_actuators api = good @ bad # rest \<longrightarrow>
      comprehension (actuator_name2id api) good = Inr ids \<longrightarrow>
      actuator_name2id api bad = Inl e \<longrightarrow> main api d n = Inl e"
    by (simp add: main_def setup_phase_def gravity_corrected_def comprehension_append_fail)
  have 4: "step s mod 100 = 0 \<longrightarrow>
      take (ncon (sim_data s)) (contact (sim_data s)) = good_cs @ c # rest_cs \<longrightarrow>
      print_contacts api good_cs (trace s @ [Print_step (step s)]) = Inr out \<longrightarrow>
      (geom_id2name api (geom1 c) = Inl e \<or>
       (\<exists>n1. geom_id2name api (geom1 c) = Inr n1 \<and> geom_id2name api (geom2 c) = Inl e)) \<longrightarrow>
      loop_body api cfg s = Inl e"
  proof (intro impI)
    assume m: "step s mod 100 = 0"
      and t: "take (ncon (sim_data s)) (contact (sim_data s)) = good_cs @ c # rest_cs"
      and g: "print_contacts api good_cs (trace s @ [Print_step (step s)]) = Inr out"
      and f: "geom_id2name api (geom1 c) = Inl e \<or>
       (\<exists>n1. geom_id2name api (geom1 c) = Inr n1 \<and> geom_id2name api (geom2 c) = Inl e)"
    from f have "print_contacts api (c # rest_cs) out = Inl e" by auto
    with g have "print_contacts api (good_cs @ c # rest_cs) (trace s @ [Print_step (step s)]) = Inl e"
      by (simp add: print_contacts_append and_then_def)
    with m t have "diagnostics api s = Inl e" by (simp add: diagnostics_def)
    then show "loop_body api cfg s = Inl e" by (simp add: loop_body_Inl_iff)
  qed
  note 5 = loop_body_Inl_iff[of api cfg s e]
  have 6: "run_loop api cfg k s0 = Inr s \<longrightarrow> loop_body api cfg s = Inl e \<longrightarrow>
      run_loop api cfg (k + Suc m) s0 = Inl e"
    by (simp add: run_loop_add and_then_def del: add_Suc_right)
  have 7: "setup_phase api = Inr cfg \<longrightarrow> run_loop api cfg k (init_state api d) = Inl e \<longrightarrow>
      main api d (k + m) = Inl e"
    by (simp add: main_def run_loop_add and_then_def)
  from 1 2 3 4 5 6 7 show ?thesis by (intro conjI)
qed


theorem C8_witness:
  "main (example_api\<lparr>get_joint_qvel_addr := (\<lambda>name. Inl ValueError)\<rparr>) example_data 3 =
     Inl ValueError \<and>
   main (example_api\<lparr>actuator_name2id :=
           (\<lambda>name. if name = ''jaw_r'' then Inr 0 else Inl ValueError)\<rparr>) example_data 3 =
     Inl ValueError \<and>
   main (example_api\<lparr>gripper_actuators := [''jaw_r'', ''jaw_x'', ''jaw_l'']\<rparr>) example_data 3 =
     Inl ValueError \<and>
   loop_body example_api example_cfg
     (example_state\<lparr>sim_data := example_data\<lparr>ncon := 3\<rparr>\<rparr>) = Inl ValueError \<and>
   run_loop example_api example_cfg (0 + Suc 4)
     (example_state\<lparr>sim_data := example_data\<lparr>ncon := 3\<rparr>\<rparr>) = Inl ValueError \<and>
   main (example_api\<lparr>geom_id2name := (\<lambda>i. Inl ValueError)\<rparr>) example_data (1 + 9) =
     Inl ValueError"
proof -
  note c1 = C8_exceptions_propagate[THEN conjunct1, rule_format]
  note c2 = C8_exceptions_propagate[THEN conjunct2, THEN conjunct1, rule_format]
  note c3 = C8_exceptions_propagate[THEN conjunct2, THEN conjunct2, THEN conjunct1, rule_format]
  note c4 = C8_exceptions_propagate[THEN conjunct2, THEN conjunct2, THEN conjunct2,
      THEN conjunct1, rule_format]
  note c6 = C8_exceptions_propagate[THEN conjunct2, THEN conjunct2, THEN conjunct2,
      THEN conjunct2, THEN conjunct2, THEN conjunct1, rule_format]
  note c7 = C8_exceptions_propagate[THEN conjunct2, THEN conjunct2, THEN conjunct2,
      THEN conjunct2, THEN conjunct2, THEN conjunct2, rule_format]
  let ?bad = "example_state\<lparr>sim_data := example_data\<lparr>ncon := 3\<rparr>\<rparr>"
  have 1: "main (example_api\<lparr>get_joint_qvel_addr := (\<lambda>name. Inl ValueError)\<rparr>) example_data 3 =
     Inl ValueError"
    by (rule c1) simp
  have 2: "main (example_api\<lparr>actuator_name2id :=
           (\<lambda>name. if name = ''jaw_r'' then Inr 0 else Inl ValueError)\<rparr>) example_data 3 =
     Inl ValueError"
    by (rule c2[where a = 0]) (simp_all add: example_api_def)
  have 3: "main (example_api\<lparr>gripper_actuators := [''jaw_r'', ''jaw_x'', ''jaw_l'']\<rparr>)
      example_data 3 = Inl ValueError"
    by (rule c3[where a = 0 and z = 3 and good = "[''jaw_r'']" and bad = "''jaw_x''"
          and rest = "[''jaw_l'']" and ids = "[0]"])
       (simp_all add: example_api_def)
  have 4: "loop_body example_api example_cfg ?bad = Inl ValueError"
    by (rule c4[where good_cs = "take 2 (contact example_data)"
          and c = "\<lparr>geom1 = 7, geom2 = 7, friction = [], frame = []\<rparr>" and rest_cs = "[]"
          and out = "[Print_step 0, Print_geoms (Some ''floor'') (Some ''box_g0''),
                  Print_contact_id 0, Print_friction [1, 1, 0.005, 0.0001, 0.0001],
                  Print_normal [0, 0, 1]]"])
       (simp_all add: example_state_def init_state_def example_api_def example_data_def)
  have 5: "run_loop example_api example_cfg (0 + Suc 4) ?bad = Inl ValueError"
    by (rule c6[OF _ 4]) simp
  have 6: "main (example_api\<lparr>geom_id2name := (\<lambda>i. Inl ValueError)\<rparr>) example_data (1 + 9) =
     Inl ValueError"
    by (rule c7[where cfg = example_cfg])
       (simp_all add: setup_phase_def gravity_corrected_def example_api_def example_cfg_def
          loop_body_def and_then_def diagnostics_def init_state_def example_data_def)
  from 1 2 3 4 5 6 show ?thesis by (intro conjI)
qed


subsection \<open>The float quotient\<close>

lemma bit_length_upper: "n < 2 ^ bit_length n"
proof (induction n rule: bit_length.induct)
  case (1 n)
  show ?case
  proof (cases "n = 0")
    case True
    then show ?thesis by (simp add: bit_length.simps)
  next
    case False
    with 1 have "n div 2 < 2 ^ bit_length (n div 2)" by simp
    then have "n < 2 * 2 ^ bit_length (n div 2)" by linarith
    with False show ?thesis by (subst bit_length.simps) simp
  qed
qed

lemma bit_length_lower: "0 < n \<Longrightarrow> 2 ^ bit_length n \<le> 2 * n"
proof (induction n rule: bit_length.induct)
  case (1 n)
  show ?case
  proof (cases "n div 2 = 0")
    case True
    with 1(2) have "n = 1" by (simp add: div_eq_0_iff)
    then show ?thesis by (simp add: bit_length.simps)
  next
    case False
    with 1 have "2 ^ bit_length (n div 2) \<le> 2 * (n div 2)" by simp
    also have "\<dots> \<le> n" by simp
    finally have "2 * 2 ^ bit_length (n div 2) \<le> 2 * n" by simp
    with 1(2) show ?thesis by (subst bit_length.simps) simp
  qed
qed

lemma floor_log2_nonneg:
  assumes "0 < a" and "0 < b" and "0 \<le> floor_log2 a b"
  shows "b * 2 ^ nat (floor_log2 a b) \<le> a" and "a < b * 2 ^ (nat (floor_log2 a b) + 1)"
proof -
  define la where "la = bit_length a"
  define lb where "lb = bit_length b"
  have a1: "a < 2 ^ la" and a2: "2 ^ la \<le> 2 * a" and b1: "b < 2 ^ lb" and b2: "2 ^ lb \<le> 2 * b"
    using assms(1,2) by (simp_all add: la_def lb_def bit_length_upper bit_length_lower)
  have la0: "0 < la" using a1 assms(1) by (cases la) auto
  show "b * 2 ^ nat (floor_log2 a b) \<le> a"
  proof (cases "lb \<le> la \<and> b * 2 ^ (la - lb) \<le> a")
    case True
    then have "nat (floor_log2 a b) = la - lb"
      by (simp add: floor_log2_def la_def lb_def nat_diff_distrib)
    with True show ?thesis by simp
  next
    case False
    show ?thesis
    proof (cases "lb \<le> la")
      case True
      with False have f: "floor_log2 a b = int (la - lb) - 1"
        by (simp add: floor_log2_def la_def lb_def nat_diff_distrib)
      with assms(3) have lt: "lb < la" by simp
      then have n: "nat (floor_log2 a b) = la - lb - 1" using f by simp
      have "b * 2 ^ (la - lb - 1) \<le> 2 ^ lb * 2 ^ (la - lb - 1)" using b1 by simp
      also have "\<dots> = 2 ^ (la - 1)" using lt by (simp flip: power_add)
      also have "2 * \<dots> = 2 ^ la" using la0 by (cases la) simp_all
      finally have "2 * (b * 2 ^ (la - lb - 1)) \<le> 2 ^ la" by simp
      with a2 show ?thesis unfolding n by simp
    next
      case lt: False
      then have "floor_log2 a b < 0"
        by (simp add: floor_log2_def la_def lb_def Let_def)
      with assms(3) show ?thesis by simp
    qed
  qed
  show "a < b * 2 ^ (nat (floor_log2 a b) + 1)"
  proof (cases "lb \<le> la")
    case le: True
    show ?thesis
    proof (cases "b * 2 ^ (la - lb) \<le> a")
      case True
      with le have f: "nat (floor_log2 a b) = la - lb"
        by (simp add: floor_log2_def la_def lb_def nat_diff_distrib)
      have "a < 2 ^ la" by (rule a1)
      also have "\<dots> = 2 ^ lb * 2 ^ (la - lb)" using le by (simp flip: power_add)
      also have "\<dots> \<le> 2 * b * 2 ^ (la - lb)" using b2 by simp
      finally show ?thesis unfolding f by simp
    next
      case False
      with le have f: "floor_log2 a b = int (la - lb) - 1"
        by (simp add: floor_log2_def la_def lb_def nat_diff_distrib)
      with assms(3) have lt: "lb < la" by simp
      then have n: "nat (floor_log2 a b) + 1 = la - lb" using f by simp
      from False show ?thesis unfolding n by simp
    qed
  next
    case False
    then have "floor_log2 a b < 0"
      by (simp add: floor_log2_def la_def lb_def Let_def)
    with assms(3) show ?thesis by simp
  qed
qed

lemma round_half_even_exact: "0 < d \<Longrightarrow> round_half_even (d * k) d = k"
  by (simp add: round_half_even_def)

lemma round_half_even_le: "0 < d \<Longrightarrow> round_half_even n d \<le> n div d + 1"
  by (simp add: round_half_even_def Let_def)


lemma round_half_even_below:
  assumes "0 < d" and "0 < M" and "2 * n < d * (2 * M - 1)"
  shows "round_half_even n d < M"
proof -
  define q where "q = n div d"
  define r where "r = n mod d"
  have n: "n = d * q + r" by (simp add: q_def r_def)
  have q: "q < M"
  proof (rule ccontr)
    assume "\<not> q < M"
    then have "d * M \<le> d * q" by simp
    also have "\<dots> \<le> n" by (simp add: n)
    finally have "2 * (d * M) \<le> 2 * n" by simp
    also note assms(3)
    also have "d * (2 * M - 1) \<le> d * (2 * M)" by simp
    finally show False by simp
  qed
  show ?thesis
  proof (cases "q + 1 < M")
    case True
    with round_half_even_le[OF assms(1), of n] show ?thesis by (simp add: q_def)
  next
    case False
    with q have M: "M = q + 1" by simp
    have "d * (2 * M - 1) = 2 * (d * q) + d" by (simp add: M algebra_simps)
    with assms(3) n have "2 * r < d" by simp
    then have "round_half_even n d = q"
      by (simp add: round_half_even_def Let_def q_def r_def)
    with q show ?thesis by simp
  qed
qed

lemma float_quotient_unfold:
  "float_quotient a b =
     (if 0 \<le> max (floor_log2 a b - 52) (- 1074)
      then (round_half_even a (b * 2 ^ nat (max (floor_log2 a b - 52) (- 1074))),
            max (floor_log2 a b - 52) (- 1074))
      else (round_half_even (a * 2 ^ nat (- max (floor_log2 a b - 52) (- 1074))) b,
            max (floor_log2 a b - 52) (- 1074)))"
  by (simp add: float_quotient_def Let_def)

lemma float_quotient_exact:
  assumes "0 < b" and "0 < k" and "k \<le> 2 ^ 53"
  shows "float_finite (float_quotient (b * k) b) \<and> float_trunc (float_quotient (b * k) b) = k"
proof -
  define f where "f = floor_log2 (b * k) b"
  define e where "e = max (f - 52) (- 1074)"
  have fq: "float_quotient (b * k) b =
     (if 0 \<le> e then (round_half_even (b * k) (b * 2 ^ nat e), e)
      else (round_half_even (b * k * 2 ^ nat (- e)) b, e))"
    by (simp add: float_quotient_unfold e_def f_def)
  have big: "(2::nat) ^ 53 < 2 ^ 1024" by simp
  have fb: "0 \<le> f \<Longrightarrow> 2 ^ nat f \<le> k"
  proof -
    assume "0 \<le> f"
    with floor_log2_nonneg(1)[of "b * k" b] assms(1,2)
    have "b * 2 ^ nat f \<le> b * k" by (simp add: f_def)
    with assms(1) show "2 ^ nat f \<le> k" by simp
  qed
  have f53: "f \<le> 53"
  proof (rule ccontr)
    assume "\<not> f \<le> 53"
    then have "0 \<le> f" and "54 \<le> nat f" by simp_all
    from fb[OF this(1)] assms(3) have "(2::nat) ^ nat f \<le> 2 ^ 53" by simp
    then have "nat f \<le> 53" by (rule power_le_imp_le_exp[rotated]) simp
    with \<open>54 \<le> nat f\<close> show False by simp
  qed
  have "e < 0 \<or> e = 0 \<or> e = 1" using f53 unfolding e_def by linarith
  then consider "e < 0" | "e = 0" | "e = 1" by blast
  then show ?thesis
  proof cases
    case 1
    have "round_half_even (b * k * 2 ^ nat (- e)) b = k * 2 ^ nat (- e)"
      by (simp only: mult.assoc round_half_even_exact[OF assms(1)])
    with 1 fq show ?thesis by (simp add: float_finite_def float_trunc_def)
  next
    case 2
    with fq round_half_even_exact[OF assms(1), of k] assms(3) big show ?thesis
      by (simp add: float_finite_def float_trunc_def)
  next
    case 3
    then have f: "f = 53" by (simp add: e_def)
    with fb assms(3) have k: "k = 2 ^ 53" by simp
    have bk: "b * k = (b * 2) * 2 ^ 52" by (simp add: k)
    have "round_half_even (b * k) (b * 2) = 2 ^ 52"
      unfolding bk by (rule round_half_even_exact) (use assms(1) in simp)
    with 3 fq k show ?thesis by (simp add: float_finite_def float_trunc_def)
  qed
qed

lemma py_int_truediv_exact:
  assumes "0 < b" and "0 \<le> k" and "k \<le> 2 ^ 53"
  shows "py_int_truediv (b * k) b = Inr k"
proof (cases "k = 0")
  case True
  with assms(1) show ?thesis by (simp add: py_int_truediv_def)
next
  case False
  with assms(2) have k: "0 < nat k" by simp
  from assms(3) have "nat k \<le> nat (2 ^ 53)" by (rule nat_mono)
  then have k53: "nat k \<le> 2 ^ 53" by simp
  from assms(1) have b: "0 < nat b" by simp
  have "nat \<bar>b * k\<bar> = nat b * nat k" using assms(1,2) by (simp add: nat_mult_distrib abs_mult)
  with float_quotient_exact[OF b k k53] assms(1,2) False show ?thesis
    by (simp add: py_int_truediv_def Let_def sgn_mult)
qed


lemma float_quotient_finite:
  assumes "0 < a" and "0 < b" and "a < b * (2 ^ 1024 - 2 ^ 970)"
  shows "float_finite (float_quotient a b)"
proof -
  define f where "f = floor_log2 a b"
  define e where "e = max (f - 52) (- 1074)"
  have fq: "float_quotient a b =
     (if 0 \<le> e then (round_half_even a (b * 2 ^ nat e), e)
      else (round_half_even (a * 2 ^ nat (- e)) b, e))"
    by (simp add: float_quotient_unfold e_def f_def)
  show ?thesis
  proof (cases "0 \<le> e")
    case False
    with fq show ?thesis by (simp add: float_finite_def)
  next
    case True
    then have ef: "e = f - 52" and f0: "0 \<le> f" unfolding e_def by linarith+
    define n where "n = nat f"
    define D where "D = b * 2 ^ nat e"
    define m where "m = round_half_even a D"
    have D0: "0 < D" using assms(2) by (simp add: D_def)
    have ne: "n = nat e + 52" using ef True unfolding n_def by linarith
    from floor_log2_nonneg[OF assms(1,2)] f0
    have lo: "b * 2 ^ n \<le> a" and up: "a < b * 2 ^ (n + 1)" by (simp_all add: f_def n_def)
    have "b * (2 ^ 1024 - 2 ^ 970) \<le> b * 2 ^ 1024" by simp
    with lo assms(3) have "b * 2 ^ n < b * 2 ^ 1024" by linarith
    with assms(2) have "(2::nat) ^ n < 2 ^ 1024" by simp
    then have "n < 1024" by (rule power_less_imp_less_exp[rotated]) simp
    with ne have e971: "nat e \<le> 971" by simp
    have "b * 2 ^ (n + 1) = D * 2 ^ 53" by (simp add: D_def ne power_add)
    with up have aD: "a < D * 2 ^ 53" by simp
    then have q: "a div D < 2 ^ 53"
      using D0 by (simp add: less_mult_imp_div_less mult.commute)
    have m53: "m \<le> 2 ^ 53"
      using round_half_even_le[OF D0, of a] q unfolding m_def by linarith
    have fin: "m * 2 ^ nat e < 2 ^ 1024"
    proof (cases "nat e \<le> 970")
      case True
      have "m * 2 ^ nat e \<le> 2 ^ 53 * 2 ^ nat e" using m53 by simp
      also have "\<dots> \<le> 2 ^ 53 * (2::nat) ^ 970"
        using True by (simp only: mult_le_cancel1 power_increasing_iff) simp
      also have "\<dots> < 2 ^ 1024" by simp
      finally show ?thesis .
    next
      case False
      with e971 have e: "nat e = 971" by simp
      have "2 * (b * (2 ^ 1024 - 2 ^ 970)) = b * 2 ^ 971 * (2 * 2 ^ 53 - 1)"
        by (simp add: algebra_simps)
      with assms(3) have "2 * a < D * (2 * 2 ^ 53 - 1)" by (simp add: D_def e)
      from round_half_even_below[OF D0 _ this] have "m < 2 ^ 53" by (simp add: m_def)
      then have "m * 2 ^ 971 < 2 ^ 53 * (2::nat) ^ 971" by simp
      also have "\<dots> = 2 ^ 1024" by simp
      finally show ?thesis by (simp only: e)
    qed
    from True fq fin show ?thesis by (simp add: float_finite_def D_def m_def)
  qed
qed

lemma py_int_truediv_finite:
  assumes "0 \<le> a" and "0 < b" and "a < b * (2 ^ 1024 - 2 ^ 970)"
  shows "\<exists>k. py_int_truediv a b = Inr k \<and> 0 \<le> k"
proof (cases "a = 0")
  case True
  with assms(2) show ?thesis by (simp add: py_int_truediv_def)
next
  case False
  with assms(1) have a: "0 < nat a" by simp
  from assms(2) have b: "0 < nat b" by simp
  have "nat a < nat (b * (2 ^ 1024 - 2 ^ 970))" using assms(1,3) by simp
  also have "nat (b * (2 ^ 1024 - 2 ^ 970)) = nat b * (2 ^ 1024 - 2 ^ 970)"
    using assms(2) by (simp add: nat_mult_distrib)
  finally have "float_finite (float_quotient (nat a) (nat b))"
    by (rule float_quotient_finite[OF a b])
  with assms(1,2) False show ?thesis by (simp add: py_int_truediv_def Let_def)
qed

lemma py_int_truediv_nonneg:
  "0 \<le> a \<Longrightarrow> 0 < b \<Longrightarrow> py_int_truediv a b = Inr k \<Longrightarrow> 0 \<le> k"
  by (auto simp: py_int_truediv_def Let_def split: if_splits)

lemma plan_lookup_value:
  assumes "py_int_truediv n T = Inr k"
  shows "0 \<le> k mod int (length seq) \<and> k mod int (length seq) < 4 \<and>
         plan_lookup n = Inr (seq ! nat (k mod int (length seq)))"
proof -
  have l: "int (length seq) = 4" by (simp add: seq_def)
  have "0 \<le> k mod 4" and "k mod 4 < 4" by simp_all
  with assms show ?thesis by (simp add: plan_lookup_def py_getitem_def l)
qed

lemma plan_lookup_no_IndexError: "plan_lookup n \<noteq> Inl IndexError"
proof (cases "py_int_truediv n T")
  case (Inl err)
  then have "err \<noteq> IndexError"
    by (auto simp: py_int_truediv_def Let_def split: if_splits)
  with Inl show ?thesis by (simp add: plan_lookup_def)
next
  case (Inr k)
  from plan_lookup_value[OF this] show ?thesis by simp
qed

lemma plan_lookup_exact:
  assumes "0 \<le> k" and "k \<le> 2 ^ 53"
  shows "plan_lookup (500 * k) = Inr (seq ! nat (k mod 4))"
proof -
  have "py_int_truediv (500 * k) T = Inr k"
    unfolding T_def by (rule py_int_truediv_exact[OF _ assms]) simp
  from plan_lookup_value[OF this] show ?thesis by (simp add: seq_def)
qed


subsection \<open>The plan index\<close>

text \<open>
  C7. For every counter value from zero up to, but not including, 500 * (2^1024 - 2^970)
  the float quotient is finite, \<^verbatim>\<open>int(step / T)\<close> is a natural number, the index
  \<^verbatim>\<open>int(step / T) % len(seq)\<close> lies in [0, 4) and the lookup in the four-entry table
  succeeds. For every counter value, whenever \<^verbatim>\<open>int(step / T)\<close> has a value the index
  lies in [0, 4) and the lookup succeeds, and the lookup expression never raises
  \<^verbatim>\<open>IndexError\<close>.
\<close>

theorem C7_plan_index_in_bounds:
  "(0 \<le> n \<longrightarrow> n < 500 * (2 ^ 1024 - 2 ^ 970) \<longrightarrow>
      (\<exists>k. py_int_truediv n T = Inr k \<and> 0 \<le> k \<and>
           0 \<le> k mod int (length seq) \<and> k mod int (length seq) < 4 \<and>
           plan_lookup n = Inr (seq ! nat (k mod int (length seq))))) \<and>
   (\<forall>k. py_int_truediv n T = Inr k \<longrightarrow>
        0 \<le> k mod int (length seq) \<and> k mod int (length seq) < 4 \<and>
        plan_lookup n = Inr (seq ! nat (k mod int (length seq)))) \<and>
   plan_lookup n \<noteq> Inl IndexError \<and>
   length seq = 4"
proof -
  have 1: "0 \<le> n \<longrightarrow> n < 500 * (2 ^ 1024 - 2 ^ 970) \<longrightarrow>
      (\<exists>k. py_int_truediv n T = Inr k \<and> 0 \<le> k \<and>
           0 \<le> k mod int (length seq) \<and> k mod int (length seq) < 4 \<and>
           plan_lookup n = Inr (seq ! nat (k mod int (length seq))))"
  proof (intro impI)
    assume "0 \<le> n" and "n < 500 * (2 ^ 1024 - 2 ^ 970)"
    from py_int_truediv_finite[OF this(1) _ this(2)] obtain k where
      k: "py_int_truediv n T = Inr k" and k0: "0 \<le> k"
      unfolding T_def by auto
    from plan_lookup_value[OF k] k k0
    show "\<exists>k. py_int_truediv n T = Inr k \<and> 0 \<le> k \<and>
           0 \<le> k mod int (length seq) \<and> k mod int (length seq) < 4 \<and>
           plan_lookup n = Inr (seq ! nat (k mod int (length seq)))"
      by blast
  qed
  have 2: "\<forall>k. py_int_truediv n T = Inr k \<longrightarrow>
        0 \<le> k mod int (length seq) \<and> k mod int (length seq) < 4 \<and>
        plan_lookup n = Inr (seq ! nat (k mod int (length seq)))"
    using plan_lookup_value by blast
  have 3: "length seq = 4" by (simp add: seq_def)
  from 1 2 plan_lookup_no_IndexError[of n] 3 show ?thesis by (intro conjI)
qed

theorem C7_witness:
  "(0::int) \<le> 1500 \<and> (1500::int) < 500 * (2 ^ 1024 - 2 ^ 970) \<and>
   py_int_truediv 1500 T = Inr 3 \<and> plan_lookup 1500 = Inr (False, True)"
proof -
  have a: "(0::int) \<le> 1500" and b: "(1500::int) < 500 * (2 ^ 1024 - 2 ^ 970)" by simp_all
  have c: "py_int_truediv 1500 T = Inr 3" by (simp add: T_def truediv_defs)
  from C7_plan_index_in_bounds[of 1500] c have "plan_lookup 1500 = Inr (seq ! nat (3 mod int (length seq)))"
    by blast
  then have "plan_lookup 1500 = Inr (False, True)" by (simp add: seq_def)
  with a b c show ?thesis by (intro conjI)
qed

theorem C7_counterexample:
  "(0::int) \<le> 500 * (2 ^ 1024 - 2 ^ 970) \<and>
   (500 * (2 ^ 1024 - 2 ^ 970)) mod T = 0 \<and>
   py_int_truediv (500 * (2 ^ 1024 - 2 ^ 970)) T = Inl OverflowError \<and>
   plan_lookup (500 * (2 ^ 1024 - 2 ^ 970)) = Inl OverflowError \<and>
   plan_update (example_state\<lparr>step := 500 * (2 ^ 1024 - 2 ^ 970)\<rparr>) = Inl OverflowError"
proof -
  have a: "(0::int) \<le> 500 * (2 ^ 1024 - 2 ^ 970)" by simp
  have b: "(500 * (2 ^ 1024 - 2 ^ 970)) mod T = 0" by (simp add: T_def)
  have c: "py_int_truediv (500 * (2 ^ 1024 - 2 ^ 970)) T = Inl OverflowError"
    by (simp add: T_def truediv_defs)
  then have d: "plan_lookup (500 * (2 ^ 1024 - 2 ^ 970)) = Inl OverflowError"
    by (simp only: plan_lookup_def sum.case)
  from b d have e: "plan_update (example_state\<lparr>step := 500 * (2 ^ 1024 - 2 ^ 970)\<rparr>) = Inl OverflowError"
    by (simp add: plan_update_def)
  from a b c d e show ?thesis by (intro conjI)
qed


subsection \<open>The plan entry of every iteration\<close>

lemma run_loop_Suc_end:
  "run_loop api cfg (Suc n) s = and_then (run_loop api cfg n s) (loop_body api cfg)"
proof -
  have "run_loop api cfg (n + 1) s = and_then (run_loop api cfg n s) (run_loop api cfg 1)"
    by (rule run_loop_add)
  moreover have "run_loop api cfg 1 = loop_body api cfg"
    by (rule ext) (simp split: sum.splits)
  ultimately show ?thesis by simp
qed

lemma plan_phase_active:
  assumes "and_then (diagnostics api s) plan_update = Inr s2"
  shows "(step s mod T \<noteq> 0 \<and> active_plan s2 = active_plan s) \<or>
         (step s mod T = 0 \<and> plan_lookup (step s) = Inr (active_plan s2))"
proof -
  from assms obtain s1 where d: "diagnostics api s = Inr s1" and p: "plan_update s1 = Inr s2"
    by (auto simp: and_then_Inr_iff)
  from diagnostics_Inr[OF d] obtain evs where s1: "s1 = s\<lparr>trace := trace s @ evs\<rparr>" ..
  from plan_update_Inr[OF p] s1 show ?thesis by (auto simp: active_plan_def)
qed

lemma loop_body_active:
  assumes "loop_body api cfg s = Inr s'"
  shows "\<exists>s2. and_then (diagnostics api s) plan_update = Inr s2 \<and>
              active_plan s' = active_plan s2 \<and> step s' = step s + 1"
proof -
  from loop_body_phases[OF assms] obtain s2 s3 where
    p: "and_then (diagnostics api s) plan_update = Inr s2" and
    c: "control cfg s2 = Inr s3" and
    f: "gripper_z_is_low s' = gripper_z_is_low s3" "gripper_is_closed s' = gripper_is_closed s3"
    by blast
  from control_Inr[OF c] f have "active_plan s' = active_plan s2" by (simp add: active_plan_def)
  with p loop_body_step[OF assms] show ?thesis by blast
qed

lemma div_500_pred: "(n::int) mod 500 \<noteq> 0 \<Longrightarrow> (n - 1) div 500 = n div 500"
proof -
  assume a: "n mod 500 \<noteq> 0"
  have r: "0 \<le> n mod 500" "n mod 500 < 500" by simp_all
  have "n - 1 = 500 * (n div 500) + (n mod 500 - 1)" by simp
  then show ?thesis
    by (rule int_div_pos_eq) (use a r in linarith)+
qed

lemma div_500_multiple_pred: "(n::int) mod 500 = 0 \<Longrightarrow> (n - 1) div 500 = n div 500 - 1"
proof -
  assume a: "n mod 500 = 0"
  have "500 * (n div 500) + n mod 500 = n" by (rule mult_div_mod_eq)
  with a have "n - 1 = 500 * (n div 500 - 1) + 499" by simp
  then show ?thesis by (rule int_div_pos_eq) simp_all
qed

lemma multiple_500: "(n::int) mod 500 = 0 \<Longrightarrow> 500 * (n div 500) = n"
  using mult_div_mod_eq[of 500 n] by simp

lemma div_500_bound: "(n::int) < 500 * (2 ^ 53 + 1) \<Longrightarrow> n div 500 \<le> 2 ^ 53"
  using mult_div_mod_eq[of 500 n] pos_mod_sign[of 500 n] by simp

lemma plan_lookup_multiple:
  assumes "0 \<le> n" and "n < 500 * (2 ^ 53 + 1)" and "n mod 500 = 0"
  shows "plan_lookup n = Inr (seq ! nat ((n div 500) mod 4))"
proof -
  from assms(1) have k0: "0 \<le> n div 500" by simp
  from plan_lookup_exact[OF k0 div_500_bound[OF assms(2)]] multiple_500[OF assms(3)]
  show ?thesis by simp
qed

lemma run_loop_plan:
  assumes "run_loop api cfg n (init_state api d) = Inr s" and "int n \<le> 500 * (2 ^ 53 + 1)"
  shows "step s = int n \<and>
         (0 < n \<longrightarrow> active_plan s = seq ! nat (((int n - 1) div 500) mod 4))"
  using assms
proof (induction n arbitrary: s)
  case 0
  then show ?case by (auto simp: init_state_def)
next
  case (Suc n)
  from Suc.prems(1) obtain t where
    t: "run_loop api cfg n (init_state api d) = Inr t" and b: "loop_body api cfg t = Inr s"
    unfolding run_loop_Suc_end and_then_Inr_iff by blast
  from Suc.prems(2) have bound: "int n < 500 * (2 ^ 53 + 1)" by simp
  with Suc.IH[OF t] have st: "step t = int n"
    and ih: "0 < n \<longrightarrow> active_plan t = seq ! nat (((int n - 1) div 500) mod 4)"
    by simp_all
  from loop_body_active[OF b] obtain s2 where
    p: "and_then (diagnostics api t) plan_update = Inr s2" and
    a: "active_plan s = active_plan s2" and s: "step s = step t + 1"
    by blast
  have "active_plan s2 = seq ! nat ((int n div 500) mod 4)"
  proof (cases "int n mod 500 = 0")
    case True
    with plan_phase_active[OF p] st have "plan_lookup (int n) = Inr (active_plan s2)"
      by (simp add: T_def)
    with plan_lookup_multiple[OF _ bound True] show ?thesis by simp
  next
    case False
    then have "0 < n" by (cases n) simp_all
    with ih have "active_plan t = seq ! nat (((int n - 1) div 500) mod 4)" by simp
    with div_500_pred[OF False] have "active_plan t = seq ! nat ((int n div 500) mod 4)" by simp
    with plan_phase_active[OF p] st False show ?thesis by (simp add: T_def)
  qed
  with a s st show ?case by simp
qed

lemma active_plan_at:
  assumes "run_loop api cfg n (init_state api d) = Inr s"
    and "diagnostics api s = Inr s1"
    and "int n < 500 * (2 ^ 53 + 1)"
  shows "\<exists>s2. plan_update s1 = Inr s2 \<and> step s = int n \<and>
           active_plan s2 = seq ! nat ((int n div 500) mod 4) \<and>
           (int n mod 500 \<noteq> 0 \<longrightarrow> s2 = s1 \<and> active_plan s2 = active_plan s) \<and>
           (int n mod 500 = 0 \<longrightarrow> 0 < n \<longrightarrow>
              active_plan s = seq ! nat ((int n div 500 - 1) mod 4))"
proof -
  from run_loop_plan[OF assms(1)] assms(3) have st: "step s = int n"
    and ih: "0 < n \<longrightarrow> active_plan s = seq ! nat (((int n - 1) div 500) mod 4)"
    by simp_all
  from diagnostics_Inr[OF assms(2)] obtain evs where s1: "s1 = s\<lparr>trace := trace s @ evs\<rparr>" ..
  show ?thesis
  proof (cases "int n mod 500 = 0")
    case True
    from plan_lookup_multiple[OF _ assms(3) True]
    have pl: "plan_lookup (int n) = Inr (seq ! nat ((int n div 500) mod 4))" by simp
    from True have "(int n - 1) div 500 = int n div 500 - 1" by (rule div_500_multiple_pred)
    with ih have prev: "0 < n \<longrightarrow> active_plan s = seq ! nat ((int n div 500 - 1) mod 4)" by simp
    show ?thesis
      using True pl prev st s1 by (simp add: plan_update_def T_def active_plan_def)
  next
    case False
    then have "0 < n" by (cases n) simp_all
    with ih div_500_pred[OF False]
    have "active_plan s = seq ! nat ((int n div 500) mod 4)" by simp
    with False st s1 show ?thesis by (simp add: plan_update_def T_def active_plan_def)
  qed
qed


subsection \<open>Runs of the small engine\<close>

lemma example_diagnostics_total:
  assumes "example_ok s"
  shows "\<exists>evs. diagnostics example_api s = Inr (s\<lparr>trace := trace s @ evs\<rparr>)"
proof (cases "step s mod 100 = 0")
  case True
  from assms have t: "take (ncon (sim_data s)) (contact (sim_data s)) = take 2 (contact example_data)"
    by (simp add: example_ok_def)
  have "print_contacts example_api (take 2 (contact example_data)) (trace s @ [Print_step (step s)]) =
      Inr ((trace s @ [Print_step (step s)]) @
        [Print_geoms (Some ''floor'') (Some ''box_g0''),
         Print_contact_id 0, Print_friction [1, 1, 0.005, 0.0001, 0.0001],
         Print_normal [0, 0, 1]])"
    by (simp add: example_api_def example_data_def)
  with True t have "diagnostics example_api s = Inr (s\<lparr>trace := trace s @
        (Print_step (step s) # [Print_geoms (Some ''floor'') (Some ''box_g0''),
         Print_contact_id 0, Print_friction [1, 1, 0.005, 0.0001, 0.0001],
         Print_normal [0, 0, 1]])\<rparr>)"
    by (simp add: diagnostics_def)
  then show ?thesis by blast
next
  case False
  then have "diagnostics example_api s = Inr (s\<lparr>trace := trace s @ []\<rparr>)"
    by (simp add: diagnostics_def)
  then show ?thesis by blast
qed

lemma plan_update_total:
  assumes "0 \<le> step s" and "step s < 500 * (2 ^ 1024 - 2 ^ 970)"
  shows "\<exists>s2. plan_update s = Inr s2 \<and> sim_data s2 = sim_data s \<and> step s2 = step s"
proof (cases "step s mod T = 0")
  case True
  from py_int_truediv_finite[OF assms(1) _ assms(2)] obtain k where
    "py_int_truediv (step s) T = Inr k" unfolding T_def by auto
  from plan_lookup_value[OF this] True show ?thesis by (simp add: plan_update_def)
next
  case False
  then show ?thesis by (simp add: plan_update_def)
qed

lemma example_control_total:
  assumes "example_ok s"
  shows "\<exists>s'. control example_cfg s = Inr s' \<and> example_ok s' \<and> step s' = step s"
  using assms
  by (simp add: control_def Let_def np_setitem_def np_setitems_def example_cfg_def
        example_ok_def finger_setpoint_def gripper_open_def gripper_closed_def)

lemma example_engine_total:
  assumes "example_ok s"
  shows "\<exists>s'. engine_step example_api s = Inr s' \<and> example_ok s' \<and>
           length (qfrc_bias (sim_data s')) = 1 \<and> step s' = step s"
  using assms by (simp add: engine_step_def example_api_def example_ok_def)

lemma example_gravity_total:
  assumes "example_ok s" and "length (qfrc_bias (sim_data s)) = 1"
  shows "\<exists>s'. gravity_compensation example_cfg s = Inr s' \<and> example_ok s' \<and> step s' = step s"
  using assms
  by (simp add: gravity_compensation_def np_getitems_def np_setitems_def example_cfg_def
        example_ok_def)

lemma example_render_total:
  assumes "example_ok s"
  shows "\<exists>s'. render_and_count example_api s = Inr s' \<and> example_ok s' \<and> step s' = step s + 1"
  using assms by (simp add: render_and_count_def example_api_def example_ok_def)

lemma example_loop_body_total:
  assumes "example_ok s" and "0 \<le> step s" and "step s < 500 * (2 ^ 1024 - 2 ^ 970)"
  shows "\<exists>s'. loop_body example_api example_cfg s = Inr s' \<and> example_ok s' \<and> step s' = step s + 1"
proof -
  from example_diagnostics_total[OF assms(1)] obtain evs where
    1: "diagnostics example_api s = Inr (s\<lparr>trace := trace s @ evs\<rparr>)" ..
  let ?s1 = "s\<lparr>trace := trace s @ evs\<rparr>"
  from assms(2,3) have "0 \<le> step ?s1" "step ?s1 < 500 * (2 ^ 1024 - 2 ^ 970)" by simp_all
  from plan_update_total[OF this] obtain s2 where
    2: "plan_update ?s1 = Inr s2" and d2: "sim_data s2 = sim_data s" and t2: "step s2 = step s"
    by auto
  from assms(1) d2 have "example_ok s2" by (simp add: example_ok_def)
  from example_control_total[OF this] obtain s3 where
    3: "control example_cfg s2 = Inr s3" and o3: "example_ok s3" and t3: "step s3 = step s2" by blast
  from example_engine_total[OF o3] obtain s4 where
    4: "engine_step example_api s3 = Inr s4" and o4: "example_ok s4" and
    b4: "length (qfrc_bias (sim_data s4)) = 1" and t4: "step s4 = step s3" by blast
  from example_gravity_total[OF o4 b4] obtain s5 where
    5: "gravity_compensation example_cfg s4 = Inr s5" and o5: "example_ok s5" and
    t5: "step s5 = step s4" by blast
  from example_render_total[OF o5] obtain s' where
    6: "render_and_count example_api s5 = Inr s'" and o6: "example_ok s'" and
    t6: "step s' = step s5 + 1" by blast
  from 1 2 3 4 5 6 have "loop_body example_api example_cfg s = Inr s'"
    unfolding loop_body_Inr_iff by blast
  with o6 t6 t5 t4 t3 t2 show ?thesis by simp
qed

lemma example_state_ok: "example_ok example_state \<and> step example_state = 0"
  by (simp add: example_ok_def example_state_def init_state_def example_api_def example_data_def)

lemma example_run_total:
  assumes "int n \<le> 500 * (2 ^ 1024 - 2 ^ 970)"
  shows "\<exists>s. run_loop example_api example_cfg n example_state = Inr s \<and>
             example_ok s \<and> step s = int n"
  using assms
proof (induction n)
  case 0
  then show ?case using example_state_ok by simp
next
  case (Suc n)
  then obtain t where t: "run_loop example_api example_cfg n example_state = Inr t"
    and ok: "example_ok t" and st: "step t = int n" by auto
  from Suc.prems st have "0 \<le> step t" "step t < 500 * (2 ^ 1024 - 2 ^ 970)" by simp_all
  from example_loop_body_total[OF ok this] obtain s where
    "loop_body example_api example_cfg t = Inr s" "example_ok s" "step s = step t + 1" by blast
  with t st show ?case
    unfolding run_loop_Suc_end by (simp add: and_then_def)
qed

end
